theory Spec2Isabelle
  imports Complex_Main "HOL-Library.Finite_Map" "HOL-Library.Multiset"
begin

section \<open>Go values used by the collector and the risk engine\<close>

text \<open>
  A Go \<^verbatim>\<open>float64\<close> is an IEEE 754 binary64 value. A finite value is kept as its sign,
  its integer significand \<open>m\<close> and the exponent \<open>e\<close> of its last bit: it stands for
  \<open>\<plusminus> m * 2 ^ e\<close>. The canonical form of a value has \<open>m < 2 ^ 53\<close>,
  \<open>- 1074 \<le> e \<le> 971\<close> and \<open>e = - 1074\<close> whenever \<open>m < 2 ^ 52\<close> (zero and the
  subnormal numbers). All NaN payloads are one value \<open>NaN\<close>.
\<close>

datatype float64 = Finite bool nat int | Infinity bool | NaN

text \<open>
  Rounding to nearest, ties to even, as Go's arithmetic and its conversion of constants do.
  \<open>float64_round s n d x\<close> is the binary64 value nearest to \<open>\<plusminus> (n / d) * 2 ^ x\<close>
  (\<open>d > 0\<close>): \<open>floor_log2 n d\<close> is the binary logarithm of \<open>n / d\<close> rounded down, found
  from the bit lengths of \<open>n\<close> and \<open>d\<close>; the exponent \<open>e\<close> of the last bit is the one that
  a 53-bit significand leaves, never below the subnormal exponent \<open>- 1074\<close>;
  \<open>scaled_quotient\<close> is \<open>(n / d) * 2 ^ (x - e)\<close> rounded half to even; \<open>float64_pack\<close>
  renormalises a significand that the rounding carried to \<open>2 ^ 53\<close> and gives an infinity
  beyond the largest finite value.
\<close>

fun bit_length :: "nat \<Rightarrow> nat" where
  "bit_length n = (if n = 0 then 0 else Suc (bit_length (n div 2)))"

declare bit_length.simps [simp del]

definition ties_to_even :: "nat \<Rightarrow> nat \<Rightarrow> nat \<Rightarrow> nat" where
  "ties_to_even q r den = (if den < 2 * r \<or> (2 * r = den \<and> odd q) then q + 1 else q)"

definition round_half_even :: "nat \<Rightarrow> nat \<Rightarrow> nat" where
  "round_half_even num den = ties_to_even (num div den) (num mod den) den"

definition log2_adjust :: "nat \<Rightarrow> nat \<Rightarrow> int \<Rightarrow> int" where
  "log2_adjust n d k =
     (if (if 0 \<le> k then d * 2 ^ nat k \<le> n else d \<le> n * 2 ^ nat (- k)) then k else k - 1)"

definition floor_log2 :: "nat \<Rightarrow> nat \<Rightarrow> int" where
  "floor_log2 n d = log2_adjust n d (int (bit_length n) - int (bit_length d))"

definition scaled_quotient :: "nat \<Rightarrow> nat \<Rightarrow> int \<Rightarrow> int \<Rightarrow> nat" where
  "scaled_quotient n d x e =
     (if e \<le> x then round_half_even (n * 2 ^ nat (x - e)) d
      else round_half_even n (d * 2 ^ nat (e - x)))"

definition float64_pack :: "bool \<Rightarrow> nat \<Rightarrow> int \<Rightarrow> float64" where
  "float64_pack s m e =
     (if m = 2 ^ 53 then (if 971 < e + 1 then Infinity s else Finite s (2 ^ 52) (e + 1))
      else if 971 < e then Infinity s else Finite s m e)"

definition float64_round_at :: "bool \<Rightarrow> nat \<Rightarrow> nat \<Rightarrow> int \<Rightarrow> int \<Rightarrow> float64" where
  "float64_round_at s n d x e = float64_pack s (scaled_quotient n d x e) e"

definition float64_round :: "bool \<Rightarrow> nat \<Rightarrow> nat \<Rightarrow> int \<Rightarrow> float64" where
  "float64_round s n d x =
     (if n = 0 then Finite s 0 (- 1074)
      else float64_round_at s n d x (max (floor_log2 n d + x - 52) (- 1074)))"

text \<open>An untyped constant \<open>p / q\<close> of the source (\<open>q > 0\<close>), converted to \<^verbatim>\<open>float64\<close>.\<close>

definition float64_const :: "int \<Rightarrow> int \<Rightarrow> float64" where
  "float64_const p q = float64_round (p < 0) (nat \<bar>p\<bar>) (nat q) 0"

definition signed :: "bool \<Rightarrow> nat \<Rightarrow> int" where
  "signed s m = (if s then - int m else int m)"

definition float64_of_sum :: "bool \<Rightarrow> int \<Rightarrow> int \<Rightarrow> float64" where
  "float64_of_sum z c g =
     (if c = 0 then Finite z 0 (- 1074) else float64_round (c < 0) (nat \<bar>c\<bar>) 1 g)"

text \<open>
  \<^verbatim>\<open>x + y\<close> and \<^verbatim>\<open>x * y\<close>: the exact sum or product of two finite values is an integer
  times a power of two, which is then rounded once (\<open>float64_of_sum z c g\<close> rounds
  \<open>c * 2 ^ g\<close>). An exact zero sum is \<open>- 0\<close> only when both operands are negative.
  Every operation is rounded on its own. (Go allows a compiler to fuse \<^verbatim>\<open>x*y + z\<close> into one
  rounding on some architectures; the sums that are compared for equality below, those of
  the risk level, contain no product.)
\<close>

fun fadd :: "float64 \<Rightarrow> float64 \<Rightarrow> float64" where
  "fadd NaN y = NaN"
| "fadd x NaN = NaN"
| "fadd (Infinity s) (Infinity t) = (if s = t then Infinity s else NaN)"
| "fadd (Infinity s) (Finite t n f) = Infinity s"
| "fadd (Finite s m e) (Infinity t) = Infinity t"
| "fadd (Finite s m e) (Finite t n f) =
     float64_of_sum (s \<and> t)
       (signed s (m * 2 ^ nat (e - min e f)) + signed t (n * 2 ^ nat (f - min e f)))
       (min e f)"

fun fmul :: "float64 \<Rightarrow> float64 \<Rightarrow> float64" where
  "fmul NaN y = NaN"
| "fmul x NaN = NaN"
| "fmul (Infinity s) (Infinity t) = Infinity (s \<noteq> t)"
| "fmul (Infinity s) (Finite t n f) = (if n = 0 then NaN else Infinity (s \<noteq> t))"
| "fmul (Finite s m e) (Infinity t) = (if m = 0 then NaN else Infinity (s \<noteq> t))"
| "fmul (Finite s m e) (Finite t n f) = float64_round (s \<noteq> t) (m * n) 1 (e + f)"

text \<open>\<^verbatim>\<open>x < y\<close>, \<^verbatim>\<open>x <= y\<close> and \<^verbatim>\<open>x > y\<close>: every comparison with a NaN is false.\<close>

fun flt :: "float64 \<Rightarrow> float64 \<Rightarrow> bool" where
  "flt NaN y = False"
| "flt x NaN = False"
| "flt (Infinity s) (Infinity t) = (s \<and> \<not> t)"
| "flt (Infinity s) (Finite t n f) = s"
| "flt (Finite s m e) (Infinity t) = (\<not> t)"
| "flt (Finite s m e) (Finite t n f) \<longleftrightarrow>
     signed s (m * 2 ^ nat (e - min e f)) < signed t (n * 2 ^ nat (f - min e f))"

fun fle :: "float64 \<Rightarrow> float64 \<Rightarrow> bool" where
  "fle NaN y = False"
| "fle x NaN = False"
| "fle (Infinity s) (Infinity t) = (s \<or> \<not> t)"
| "fle (Infinity s) (Finite t n f) = s"
| "fle (Finite s m e) (Infinity t) = (\<not> t)"
| "fle (Finite s m e) (Finite t n f) \<longleftrightarrow>
     signed s (m * 2 ^ nat (e - min e f)) \<le> signed t (n * 2 ^ nat (f - min e f))"

definition fgt :: "float64 \<Rightarrow> float64 \<Rightarrow> bool" where
  "fgt x y = flt y x"

text \<open>The real number that a finite value stands for.\<close>

definition float64_value :: "float64 \<Rightarrow> real" where
  "float64_value x =
     (case x of Finite s m e \<Rightarrow> real_of_int (signed s m) * 2 powi e | _ \<Rightarrow> 0)"

text \<open>\<^verbatim>\<open>time.Time\<close> is kept as an instant on an integer clock.\<close>

type_synonym time = int

text \<open>An \<^verbatim>\<open>error\<close> built by \<^verbatim>\<open>fmt.Errorf\<close> is its message.\<close>

datatype error = Errorf string

section \<open>internal/models\<close>

record TokenInfo =
  Symbol :: string
  Name :: string
  ContractAddress :: string
  Network :: string
  LaunchType :: string
  LaunchDate :: time
  InitialPrice :: float64
  TotalSupply :: float64
  CirculatingSupply :: float64
  TeamAllocation :: float64
  VestingSchedule :: string

section \<open>internal/data/collector\<close>

text \<open>
  The \<^verbatim>\<open>Logger\<close> of the collector is an effect: every call of \<^verbatim>\<open>Info\<close> or \<^verbatim>\<open>Error\<close>
  appends one entry (the message and its fields, in call order) to a log that the
  operations return next to their result.
\<close>

datatype field = Str string | Err "error option"

datatype log_entry = Info string "field list" | Error string "field list"

text \<open>
  A \<^verbatim>\<open>DataSource\<close> is an interface value: one closure for each method that the modelled
  operations call. A fetch returns Go's pair of a result and an error; either component may
  be nil. The context argument is not read by the collector and is left out.
\<close>

record DataSource =
  source_Name :: string
  source_CollectTokenInfo :: "string \<Rightarrow> TokenInfo option \<times> error option"
  source_CollectSocialMetrics :: "string \<Rightarrow> (string, float64) fmap \<times> error option"

record MultiSourceCollector =
  sources :: "DataSource list"

text \<open>
  \<^verbatim>\<open>CollectTokenInfo\<close>: the \<^verbatim>\<open>for _, source := range c.sources\<close> loop, as a recursion over
  the sources still to be tried. A source's answer is taken when \<^verbatim>\<open>err == nil && result != nil\<close>.
\<close>

fun CollectTokenInfo_range ::
  "DataSource list \<Rightarrow> string \<Rightarrow> log_entry list \<Rightarrow> (error + TokenInfo) \<times> log_entry list" where
  "CollectTokenInfo_range [] symbol logged =
     (Inl (Errorf ''failed to collect token info from all sources''), logged)"
| "CollectTokenInfo_range (source # rest) symbol logged =
     (case source_CollectTokenInfo source symbol of
        (result, err) \<Rightarrow>
          (case (err, result) of
             (None, Some info) \<Rightarrow>
               (Inr info,
                logged @ [Info ''collected token info''
                         [Str ''source'', Str (source_Name source), Str ''symbol'', Str symbol]])
           | _ \<Rightarrow>
               CollectTokenInfo_range rest symbol
                 (logged @ [Error ''failed to collect token info''
                           [Str ''source'', Str (source_Name source), Str ''error'', Err err]])))"

definition CollectTokenInfo ::
  "MultiSourceCollector \<Rightarrow> string \<Rightarrow> (error + TokenInfo) \<times> log_entry list" where
  "CollectTokenInfo c symbol = CollectTokenInfo_range (sources c) symbol []"

text \<open>What the claims call a source that succeeds, and the entries the collector logs.\<close>

definition token_info_succeeds :: "string \<Rightarrow> DataSource \<Rightarrow> bool" where
  "token_info_succeeds symbol source \<longleftrightarrow>
     snd (source_CollectTokenInfo source symbol) = None \<and>
     fst (source_CollectTokenInfo source symbol) \<noteq> None"

definition token_info_failure_entry :: "string \<Rightarrow> DataSource \<Rightarrow> log_entry" where
  "token_info_failure_entry symbol source =
     Error ''failed to collect token info''
       [Str ''source'', Str (source_Name source), Str ''error'',
        Err (snd (source_CollectTokenInfo source symbol))]"

definition NotFound_token_info :: error where
  "NotFound_token_info = Errorf ''failed to collect token info from all sources''"

text \<open>
  \<^verbatim>\<open>CollectSocialMetrics\<close> starts one goroutine for each source and waits for all of them.
  A goroutine fetches, returns at once when the fetch failed, and otherwise copies every
  entry of the fetched map into \<^verbatim>\<open>results\<close> while it holds the mutex; so the copies of
  two goroutines never interleave, and a run is determined by the order in which the
  goroutines reach the mutex. That order is the \<open>schedule\<close>: a list of positions in
  \<^verbatim>\<open>c.sources\<close>, each exactly once. Writing the distinct keys of one map in any order
  gives the map overriding \<^verbatim>\<open>results\<close>. The log entries are written outside the mutex, in
  no fixed order, and are left out.
\<close>

definition CollectSocialMetrics_go ::
  "string \<Rightarrow> DataSource \<Rightarrow> (string, float64) fmap \<Rightarrow> (string, float64) fmap" where
  "CollectSocialMetrics_go symbol src results =
     (case source_CollectSocialMetrics src symbol of
        (metrics, err) \<Rightarrow> if err \<noteq> None then results else results ++\<^sub>f metrics)"

definition len_map :: "('k, 'v) fmap \<Rightarrow> nat" where
  "len_map m = fcard (fmdom m)"

definition CollectSocialMetrics ::
  "MultiSourceCollector \<Rightarrow> string \<Rightarrow> nat list \<Rightarrow> error + (string, float64) fmap" where
  "CollectSocialMetrics c symbol schedule =
     (let results = fold (\<lambda>i. CollectSocialMetrics_go symbol (sources c ! i)) schedule fmempty
      in if len_map results = 0
         then Inl (Errorf ''failed to collect social metrics from all sources'')
         else Inr results)"

definition is_schedule :: "MultiSourceCollector \<Rightarrow> nat list \<Rightarrow> bool" where
  "is_schedule c schedule \<longleftrightarrow> mset schedule = mset [0..<length (sources c)]"

text \<open>What a source adds to the merged map: its map when the fetch succeeds, nothing otherwise.\<close>

definition social_metrics_of :: "string \<Rightarrow> DataSource \<Rightarrow> (string, float64) fmap" where
  "social_metrics_of symbol src =
     (case source_CollectSocialMetrics src symbol of
        (metrics, None) \<Rightarrow> metrics
      | (metrics, Some e) \<Rightarrow> fmempty)"

definition NotFound_social_metrics :: error where
  "NotFound_social_metrics = Errorf ''failed to collect social metrics from all sources''"

section \<open>internal/trading and internal/risk\<close>

record Order =
  Symbol :: string
  Side :: string
  Amount :: float64
  Price :: float64
  OrderType :: string
  Status :: string
  OrderID :: string
  RawOrderID :: int

record RiskParameters =
  MaxPositionSize :: float64
  MaxLossPerTrade :: float64
  MaxDailyLoss :: float64
  MaxLeverage :: float64
  MinLiquidity :: float64

record RiskAssessment =
  IsAcceptable :: bool
  RiskLevel :: float64
  RiskFactors :: "string list"
  Recommendations :: "string list"

text \<open>
  The manager: its parameters, the anonymous struct \<^verbatim>\<open>dailyStats\<close> and the time of the last
  reset. The lock \<^verbatim>\<open>paramsMu\<close> has no content of its own in a sequential run: a call
  of \<^verbatim>\<open>CheckTradeRisk\<close> or \<^verbatim>\<open>SetRiskParameters\<close> is modelled as running alone, on the
  manager as it is when the call starts.
\<close>

record DailyStats =
  totalLoss :: float64
  tradingVolume :: float64
  tradeCount :: int

record BasicRiskManager =
  params :: RiskParameters
  dailyStats :: DailyStats
  statsReset :: time

text \<open>
  \<^verbatim>\<open>NewBasicRiskManager\<close>: the statistics start at Go's zero values; \<open>now\<close> is the value
  of \<^verbatim>\<open>time.Now()\<close>.
\<close>

definition NewBasicRiskManager :: "RiskParameters \<Rightarrow> time \<Rightarrow> BasicRiskManager" where
  "NewBasicRiskManager initialParams now =
     \<lparr>params = initialParams,
      dailyStats = \<lparr>totalLoss = float64_const 0 1, tradingVolume = float64_const 0 1,
                    tradeCount = 0\<rparr>,
      statsReset = now\<rparr>"

text \<open>
  \<^verbatim>\<open>CheckTradeRisk\<close> runs five blocks in sequence on the assessment it builds. Each block is
  one function from the assessment so far to the next one. \<open>Sprintf_2f\<close> stands for
  \<^verbatim>\<open>fmt.Sprintf\<close> with the verb \<^verbatim>\<open>%.2f\<close>, a function of Go's library.
\<close>

definition check_position_size ::
  "(float64 \<Rightarrow> string) \<Rightarrow> RiskParameters \<Rightarrow> Order \<Rightarrow> float64 \<Rightarrow> RiskAssessment \<Rightarrow> RiskAssessment" where
  "check_position_size Sprintf_2f params' order orderValue assessment =
     (if fgt orderValue (MaxPositionSize params') then
        assessment
          \<lparr>IsAcceptable := False,
           RiskLevel := fadd (RiskLevel assessment) (float64_const 3 10),
           RiskFactors := RiskFactors assessment @ [''Position size exceeds maximum allowed''],
           Recommendations := Recommendations assessment @
             [''Reduce position size below '' @ Sprintf_2f (MaxPositionSize params')]\<rparr>
      else
        let potentialLoss = fmul orderValue (float64_const 1 10)
        in if Side order = ''buy'' \<and> fgt potentialLoss (MaxLossPerTrade params') then
             assessment
               \<lparr>IsAcceptable := False,
                RiskLevel := fadd (RiskLevel assessment) (float64_const 25 100),
                RiskFactors := RiskFactors assessment @
                  [''Potential loss exceeds maximum allowed per trade''],
                Recommendations := Recommendations assessment @
                  [''Reduce position size to limit potential loss below '' @
                   Sprintf_2f (MaxLossPerTrade params')]\<rparr>
           else assessment)"

definition check_daily_loss ::
  "BasicRiskManager \<Rightarrow> RiskParameters \<Rightarrow> float64 \<Rightarrow> RiskAssessment \<Rightarrow> RiskAssessment" where
  "check_daily_loss rm params' orderValue assessment =
     (if fgt (fadd (totalLoss (dailyStats rm)) (fmul orderValue (float64_const 1 10)))
             (MaxDailyLoss params') then
        assessment
          \<lparr>IsAcceptable := False,
           RiskLevel := fadd (RiskLevel assessment) (float64_const 25 100),
           RiskFactors := RiskFactors assessment @
             [''Trade could exceed maximum daily loss limit''],
           Recommendations := Recommendations assessment @
             [''Wait for daily loss limit to reset or reduce position size'']\<rparr>
      else assessment)"

definition check_market_order :: "Order \<Rightarrow> RiskAssessment \<Rightarrow> RiskAssessment" where
  "check_market_order order assessment =
     (if OrderType order = ''market'' then
        assessment
          \<lparr>RiskLevel := fadd (RiskLevel assessment) (float64_const 1 10),
           RiskFactors := RiskFactors assessment @ [''Market order may result in slippage''],
           Recommendations := Recommendations assessment @
             [''Consider using limit order for better price control'']\<rparr>
      else assessment)"

definition check_trading_volume ::
  "BasicRiskManager \<Rightarrow> RiskParameters \<Rightarrow> float64 \<Rightarrow> RiskAssessment \<Rightarrow> RiskAssessment" where
  "check_trading_volume rm params' orderValue assessment =
     (if fgt (fadd (tradingVolume (dailyStats rm)) orderValue)
             (fmul (MaxPositionSize params') (float64_const 5 1)) then
        assessment
          \<lparr>IsAcceptable := False,
           RiskLevel := fadd (RiskLevel assessment) (float64_const 2 10),
           RiskFactors := RiskFactors assessment @
             [''Daily trading volume would exceed safe limits''],
           Recommendations := Recommendations assessment @
             [''Reduce trading volume or wait for daily reset'']\<rparr>
      else assessment)"

definition check_trade_frequency :: "BasicRiskManager \<Rightarrow> RiskAssessment \<Rightarrow> RiskAssessment" where
  "check_trade_frequency rm assessment =
     (if 100 < tradeCount (dailyStats rm) then
        assessment
          \<lparr>RiskLevel := fadd (RiskLevel assessment) (float64_const 15 100),
           RiskFactors := RiskFactors assessment @ [''High trading frequency detected''],
           Recommendations := Recommendations assessment @
             [''Consider reducing trading frequency'']\<rparr>
      else assessment)"

text \<open>
  The order and the new parameters arrive through pointers: reading a field through a nil
  pointer panics, which is the error \<open>NilDereference\<close> of the model. With a non-nil
  order \<^verbatim>\<open>CheckTradeRisk\<close> returns its assessment and a nil error.
\<close>

datatype failure = NilDereference | Returned error

definition CheckTradeRisk ::
  "(float64 \<Rightarrow> string) \<Rightarrow> BasicRiskManager \<Rightarrow> Order option \<Rightarrow> failure + RiskAssessment" where
  "CheckTradeRisk Sprintf_2f rm order_ptr =
     (case order_ptr of
        None \<Rightarrow> Inl NilDereference
      | Some order \<Rightarrow>
          let params' = params rm;
              assessment = \<lparr>IsAcceptable = True, RiskLevel = float64_const 0 1,
                            RiskFactors = [], Recommendations = []\<rparr>;
              orderValue = fmul (Amount order) (Price order);
              assessment = check_position_size Sprintf_2f params' order orderValue assessment;
              assessment = check_daily_loss rm params' orderValue assessment;
              assessment = check_market_order order assessment;
              assessment = check_trading_volume rm params' orderValue assessment;
              assessment = check_trade_frequency rm assessment
          in Inr assessment)"

text \<open>
  \<^verbatim>\<open>SetRiskParameters\<close> returns its error (\<open>None\<close> for nil) and the manager after the call.
\<close>

definition SetRiskParameters ::
  "BasicRiskManager \<Rightarrow> RiskParameters option \<Rightarrow> failure option \<times> BasicRiskManager" where
  "SetRiskParameters rm params_ptr =
     (case params_ptr of
        None \<Rightarrow> (Some NilDereference, rm)
      | Some new_params \<Rightarrow>
          if fle (MaxPositionSize new_params) (float64_const 0 1) \<or>
             fle (MaxLossPerTrade new_params) (float64_const 0 1) \<or>
             fle (MaxDailyLoss new_params) (float64_const 0 1) \<or>
             fle (MaxLeverage new_params) (float64_const 0 1) \<or>
             fle (MinLiquidity new_params) (float64_const 0 1)
          then (Some (Returned (Errorf ''invalid risk parameters: all values must be positive'')), rm)
          else (None, rm\<lparr>params := new_params\<rparr>))"

definition getSeverityLevel :: "float64 \<Rightarrow> string" where
  "getSeverityLevel pnl =
     (if flt pnl (float64_const (- 10000) 1) then ''HIGH''
      else if flt pnl (float64_const (- 5000) 1) then ''MEDIUM''
      else ''LOW'')"

text \<open>
  The conditions of the six checks, as the specification lists them: the value of the order
  is \<open>amount * price\<close>, the estimated loss a tenth of it.
\<close>

definition order_value :: "Order \<Rightarrow> float64" where
  "order_value order = fmul (Amount order) (Price order)"

definition exceeds_position_size :: "BasicRiskManager \<Rightarrow> Order \<Rightarrow> bool" where
  "exceeds_position_size rm order \<longleftrightarrow>
     fgt (order_value order) (MaxPositionSize (params rm))"

definition exceeds_loss_per_trade :: "BasicRiskManager \<Rightarrow> Order \<Rightarrow> bool" where
  "exceeds_loss_per_trade rm order \<longleftrightarrow>
     Side order = ''buy'' \<and>
     fgt (fmul (order_value order) (float64_const 1 10)) (MaxLossPerTrade (params rm))"

definition exceeds_daily_loss :: "BasicRiskManager \<Rightarrow> Order \<Rightarrow> bool" where
  "exceeds_daily_loss rm order \<longleftrightarrow>
     fgt (fadd (totalLoss (dailyStats rm)) (fmul (order_value order) (float64_const 1 10)))
         (MaxDailyLoss (params rm))"

definition is_market_order :: "Order \<Rightarrow> bool" where
  "is_market_order order \<longleftrightarrow> OrderType order = ''market''"

definition exceeds_daily_volume :: "BasicRiskManager \<Rightarrow> Order \<Rightarrow> bool" where
  "exceeds_daily_volume rm order \<longleftrightarrow>
     fgt (fadd (tradingVolume (dailyStats rm)) (order_value order))
         (fmul (MaxPositionSize (params rm)) (float64_const 5 1))"

definition high_trade_frequency :: "BasicRiskManager \<Rightarrow> bool" where
  "high_trade_frequency rm \<longleftrightarrow> 100 < tradeCount (dailyStats rm)"

text \<open>The weights that the checks after the first two add, in the order of the checks.\<close>

definition later_weights :: "BasicRiskManager \<Rightarrow> Order \<Rightarrow> float64 list" where
  "later_weights rm order =
     (if exceeds_daily_loss rm order then [float64_const 25 100] else []) @
     (if is_market_order order then [float64_const 1 10] else []) @
     (if exceeds_daily_volume rm order then [float64_const 2 10] else []) @
     (if high_trade_frequency rm then [float64_const 15 100] else [])"

text \<open>The number of checks that fire; the first two exclude each other.\<close>

definition fired_checks :: "BasicRiskManager \<Rightarrow> Order \<Rightarrow> nat" where
  "fired_checks rm order =
     of_bool (exceeds_position_size rm order \<or> exceeds_loss_per_trade rm order) +
     of_bool (exceeds_daily_loss rm order) +
     of_bool (is_market_order order) +
     of_bool (exceeds_daily_volume rm order) +
     of_bool (high_trade_frequency rm)"

text \<open>
  A value that is at most zero, and one that is strictly positive, read as real numbers
  (and as the infinity of that sign); a NaN is neither.
\<close>

definition at_most_zero :: "float64 \<Rightarrow> bool" where
  "at_most_zero x \<longleftrightarrow>
     (case x of Finite s m e \<Rightarrow> float64_value x \<le> 0 | Infinity s \<Rightarrow> s | NaN \<Rightarrow> False)"

definition strictly_positive :: "float64 \<Rightarrow> bool" where
  "strictly_positive x \<longleftrightarrow>
     (case x of Finite s m e \<Rightarrow> 0 < float64_value x | Infinity s \<Rightarrow> \<not> s | NaN \<Rightarrow> False)"

definition InvalidParameter :: failure where
  "InvalidParameter = Returned (Errorf ''invalid risk parameters: all values must be positive'')"

section \<open>Concrete inputs\<close>

text \<open>A source that fails every fetch, and one that answers every fetch.\<close>

definition failing_source :: DataSource where
  "failing_source =
     \<lparr>source_Name = ''A'',
      source_CollectTokenInfo = (\<lambda>symbol. (None, Some (Errorf ''unavailable''))),
      source_CollectSocialMetrics = (\<lambda>symbol. (fmempty, Some (Errorf ''unavailable'')))\<rparr>"

definition example_token :: TokenInfo where
  "example_token =
     \<lparr>TokenInfo.Symbol = ''BTC'', Name = ''Bitcoin'', ContractAddress = [], Network = ''btc'',
      LaunchType = ''IDO'', LaunchDate = 0, InitialPrice = float64_const 1 1,
      TotalSupply = float64_const 21000000 1, CirculatingSupply = float64_const 19000000 1,
      TeamAllocation = float64_const 0 1, VestingSchedule = []\<rparr>"

definition answering_source :: DataSource where
  "answering_source =
     \<lparr>source_Name = ''B'',
      source_CollectTokenInfo = (\<lambda>symbol. (Some example_token, None)),
      source_CollectSocialMetrics = (\<lambda>symbol. (fmempty, None))\<rparr>"

text \<open>Two sources that report disjoint platforms.\<close>

definition twitter_source :: DataSource where
  "twitter_source =
     \<lparr>source_Name = ''twitter'',
      source_CollectTokenInfo = (\<lambda>symbol. (None, Some (Errorf ''unsupported''))),
      source_CollectSocialMetrics =
        (\<lambda>symbol. (fmupd ''twitter'' (float64_const 1 1) fmempty, None))\<rparr>"

definition reddit_source :: DataSource where
  "reddit_source =
     \<lparr>source_Name = ''reddit'',
      source_CollectTokenInfo = (\<lambda>symbol. (None, Some (Errorf ''unsupported''))),
      source_CollectSocialMetrics =
        (\<lambda>symbol. (fmupd ''reddit'' (float64_const 2 1) fmempty, None))\<rparr>"

text \<open>The parameters and the orders of the tests of the repository.\<close>

definition test_params :: RiskParameters where
  "test_params =
     \<lparr>MaxPositionSize = float64_const 10000 1, MaxLossPerTrade = float64_const 1000 1,
      MaxDailyLoss = float64_const 3000 1, MaxLeverage = float64_const 3 1,
      MinLiquidity = float64_const 5000 1\<rparr>"

definition test_order :: "string \<Rightarrow> int \<Rightarrow> string \<Rightarrow> Order" where
  "test_order side amount order_type =
     \<lparr>Symbol = ''BTC-USDT'', Side = side, Amount = float64_const amount 1,
      Price = float64_const 1000 1, OrderType = order_type, Status = ''new'',
      OrderID = [], RawOrderID = 0\<rparr>"

definition loss_test_params :: RiskParameters where
  "loss_test_params = test_params\<lparr>MaxLossPerTrade := float64_const 50 1\<rparr>"

definition zero_params :: RiskParameters where
  "zero_params =
     \<lparr>MaxPositionSize = float64_const 0 1, MaxLossPerTrade = float64_const 0 1,
      MaxDailyLoss = float64_const 0 1, MaxLeverage = float64_const 0 1,
      MinLiquidity = float64_const 0 1\<rparr>"

definition test_manager :: "RiskParameters \<Rightarrow> BasicRiskManager" where
  "test_manager p = NewBasicRiskManager p 0"

definition default_assessment :: RiskAssessment where
  "default_assessment =
     \<lparr>IsAcceptable = True, RiskLevel = float64_const 0 1, RiskFactors = [],
      Recommendations = []\<rparr>"

definition test_Sprintf_2f :: "float64 \<Rightarrow> string" where
  "test_Sprintf_2f x = ''10000.00''"

section \<open>Evaluating the arithmetic on numerals\<close>

lemma bit_length_0: "bit_length 0 = 0"
  by (simp add: bit_length.simps)

lemma bit_length_Suc_0: "bit_length (Suc 0) = 1"
  by (subst bit_length.simps) (simp add: bit_length_0)

lemma bit_length_1: "bit_length 1 = 1"
  using bit_length_Suc_0 by simp

lemma bit_length_double: "0 < n \<Longrightarrow> bit_length (2 * n) = Suc (bit_length n)"
  by (subst bit_length.simps) simp

lemma bit_length_double1: "bit_length (2 * n + 1) = Suc (bit_length n)"
  by (subst bit_length.simps) simp

lemma bit_length_Bit0: "bit_length (numeral (Num.Bit0 k)) = Suc (bit_length (numeral k))"
proof -
  have "(numeral (Num.Bit0 k) :: nat) = 2 * numeral k"
    by simp
  then show ?thesis
    by (simp only: bit_length_double [of "numeral k"] zero_less_numeral)
qed

lemma bit_length_Bit1: "bit_length (numeral (Num.Bit1 k)) = Suc (bit_length (numeral k))"
proof -
  have "(numeral (Num.Bit1 k) :: nat) = 2 * numeral k + 1"
    by simp
  then show ?thesis
    by (simp only: bit_length_double1 [of "numeral k"])
qed

lemmas float64_eval =
  float64_const_def float64_round_def float64_round_at_def float64_pack_def scaled_quotient_def floor_log2_def
  log2_adjust_def round_half_even_def ties_to_even_def float64_of_sum_def signed_def fgt_def
  bit_length_0 bit_length_1 bit_length_Suc_0 bit_length_Bit0 bit_length_Bit1

section \<open>The order of \<^verbatim>\<open>float64\<close> values\<close>

lemma signed_scale:
  assumes "g \<le> e"
  shows "real_of_int (signed s (m * 2 ^ nat (e - g))) =
           real_of_int (signed s m) * 2 powi e * 2 powi (- g)"
proof -
  have "(2::real) powi e * 2 powi (- g) = 2 powi (e - g)"
    by (simp add: power_int_diff power_int_minus field_simps)
  also have "\<dots> = 2 ^ nat (e - g)"
    using assms by (simp add: power_int_def)
  finally have "(2::real) powi e * 2 powi (- g) = 2 ^ nat (e - g)" .
  then show ?thesis
    by (simp add: signed_def mult.assoc)
qed

lemma flt_Finite_value:
  "flt (Finite s m e) (Finite t n f) \<longleftrightarrow>
     float64_value (Finite s m e) < float64_value (Finite t n f)"
proof -
  define g where "g = min e f"
  define a where "a = real_of_int (signed s m) * 2 powi e"
  define b where "b = real_of_int (signed t n) * 2 powi f"
  have ge: "g \<le> e" and gf: "g \<le> f" by (simp_all add: g_def)
  have pos: "(0::real) < 2 powi (- g)" by simp
  have "flt (Finite s m e) (Finite t n f) \<longleftrightarrow>
          real_of_int (signed s (m * 2 ^ nat (e - g))) <
          real_of_int (signed t (n * 2 ^ nat (f - g)))"
    unfolding flt.simps g_def by (rule of_int_less_iff [symmetric])
  also have "\<dots> \<longleftrightarrow> a * 2 powi (- g) < b * 2 powi (- g)"
    unfolding signed_scale [OF ge] signed_scale [OF gf] a_def b_def ..
  also have "\<dots> \<longleftrightarrow> a < b"
    using pos by (rule mult_less_cancel_right_pos)
  finally show ?thesis by (simp add: float64_value_def a_def b_def)
qed

lemma fle_Finite_value:
  "fle (Finite s m e) (Finite t n f) \<longleftrightarrow>
     float64_value (Finite s m e) \<le> float64_value (Finite t n f)"
proof -
  define g where "g = min e f"
  define a where "a = real_of_int (signed s m) * 2 powi e"
  define b where "b = real_of_int (signed t n) * 2 powi f"
  have ge: "g \<le> e" and gf: "g \<le> f" by (simp_all add: g_def)
  have pos: "(0::real) < 2 powi (- g)" by simp
  have "fle (Finite s m e) (Finite t n f) \<longleftrightarrow>
          real_of_int (signed s (m * 2 ^ nat (e - g))) \<le>
          real_of_int (signed t (n * 2 ^ nat (f - g)))"
    unfolding fle.simps g_def by (rule of_int_le_iff [symmetric])
  also have "\<dots> \<longleftrightarrow> a * 2 powi (- g) \<le> b * 2 powi (- g)"
    unfolding signed_scale [OF ge] signed_scale [OF gf] a_def b_def ..
  also have "\<dots> \<longleftrightarrow> a \<le> b"
    using pos by (rule mult_le_cancel_right_pos)
  finally show ?thesis by (simp add: float64_value_def a_def b_def)
qed

section \<open>The arithmetic rounds to nearest, ties to even\<close>

text \<open>
  The bit length brackets a number between two powers of two, which gives the binary
  logarithm of a quotient; the rounded quotient is within one half of the exact one, and
  even when it is exactly one half away.
\<close>

lemma bit_length_bounds:
  "0 < n \<Longrightarrow> n < 2 ^ bit_length n \<and> 2 ^ bit_length n \<le> 2 * n"
proof (induction n rule: bit_length.induct)
  case (1 n)
  show ?case
  proof (cases "n div 2 = 0")
    case True
    with "1.prems" have "n = 1" by (simp add: div_eq_0_iff) 
    then show ?thesis by (simp add: bit_length_Suc_0)
  next
    case False
    with "1.IH" "1.prems" have IH: "n div 2 < 2 ^ bit_length (n div 2)"
      "2 ^ bit_length (n div 2) \<le> 2 * (n div 2)" by simp_all
    have bl: "bit_length n = Suc (bit_length (n div 2))"
      using "1.prems" by (subst bit_length.simps) simp
    have "n < 2 * (n div 2) + 2" by presburger
    with IH(1) have "n < 2 * 2 ^ bit_length (n div 2)" by linarith
    moreover have "2 * (n div 2) \<le> n" by presburger
    with IH(2) have "2 * 2 ^ bit_length (n div 2) \<le> 2 * n" by linarith
    ultimately show ?thesis by (simp add: bl)
  qed
qed

lemma log2_test_real:
  assumes "0 < d"
  shows "(if 0 \<le> k then d * 2 ^ nat k \<le> n else d \<le> n * 2 ^ nat (- k)) \<longleftrightarrow>
           real d * 2 powi k \<le> real n"
proof (cases "0 \<le> k")
  case True
  then have "(2::real) powi k = 2 ^ nat k" by (simp add: power_int_def)
  then have "real d * 2 powi k \<le> real n \<longleftrightarrow> real (d * 2 ^ nat k) \<le> real n" by simp
  with True show ?thesis by (simp only: of_nat_le_iff if_True)
next
  case False
  then have p: "(2::real) powi k = 1 / 2 ^ nat (- k)"
    by (simp add: power_int_def field_simps)
  have "real d * 2 powi k \<le> real n \<longleftrightarrow> real d \<le> real n * 2 ^ nat (- k)"
    unfolding p by (simp add: field_simps)
  also have "\<dots> \<longleftrightarrow> real d \<le> real (n * 2 ^ nat (- k))" by simp
  finally show ?thesis using False by (simp only: of_nat_le_iff if_False)
qed

lemma floor_log2_bounds:
  assumes n: "0 < n" and d: "0 < d"
  shows "real d * 2 powi (floor_log2 n d) \<le> real n"
    and "real n < real d * 2 powi (floor_log2 n d + 1)"
proof -
  define a where "a = bit_length n"
  define b where "b = bit_length d"
  define k where "k = int a - int b"
  from bit_length_bounds [OF n] have na: "real n < 2 ^ a" "(2::real) ^ a \<le> 2 * real n"
    unfolding a_def by (metis of_nat_less_iff of_nat_numeral of_nat_power,
      metis of_nat_le_iff of_nat_numeral of_nat_power of_nat_mult)
  from bit_length_bounds [OF d] have db: "real d < 2 ^ b" "(2::real) ^ b \<le> 2 * real d"
    unfolding b_def by (metis of_nat_less_iff of_nat_numeral of_nat_power,
      metis of_nat_le_iff of_nat_numeral of_nat_power of_nat_mult)
  have pk: "(2::real) powi k = 2 ^ a / 2 ^ b"
    by (simp add: k_def power_int_diff)
  have pk1: "(2::real) powi (k + 1) = 2 * 2 ^ a / 2 ^ b"
    by (simp add: power_int_add pk)
  have pkm: "(2::real) powi (k - 1) = 2 ^ a / (2 * 2 ^ b)"
    by (simp add: power_int_diff pk)
  have upper: "real n < real d * 2 powi (k + 1)"
  proof -
    note na(1)
    also have "(2::real) ^ a = 2 ^ b * 2 ^ a / 2 ^ b" by simp
    also have "\<dots> \<le> (2 * real d) * 2 ^ a / 2 ^ b"
      using db(2) by (intro divide_right_mono mult_right_mono) simp_all
    also have "\<dots> = real d * 2 powi (k + 1)" by (simp add: pk1)
    finally show ?thesis .
  qed
  have lower: "real d * 2 powi (k - 1) \<le> real n"
  proof -
    have "real d * 2 powi (k - 1) = real d * 2 ^ a / (2 * 2 ^ b)" by (simp add: pkm)
    also have "\<dots> \<le> 2 ^ b * 2 ^ a / (2 * 2 ^ b)"
      using db(1) by (intro divide_right_mono mult_right_mono) simp_all
    also have "\<dots> = 2 ^ a / 2" by simp
    also have "\<dots> \<le> real n" using na(2) by linarith
    finally show ?thesis .
  qed
  have fl: "floor_log2 n d = (if real d * 2 powi k \<le> real n then k else k - 1)"
    unfolding floor_log2_def log2_adjust_def log2_test_real [OF d]
    by (simp add: k_def a_def b_def)
  show "real d * 2 powi (floor_log2 n d) \<le> real n"
    using lower by (simp add: fl)
  show "real n < real d * 2 powi (floor_log2 n d + 1)"
    using upper by (simp add: fl not_le)
qed

lemma round_half_even_error:
  assumes "0 < den"
  shows "2 * \<bar>int num - int (round_half_even num den) * int den\<bar> \<le> int den"
    and "2 * \<bar>int num - int (round_half_even num den) * int den\<bar> = int den \<Longrightarrow>
         even (round_half_even num den)"
proof -
  define q where "q = num div den"
  define r where "r = num mod den"
  have num: "int num = int q * int den + int r"
    unfolding q_def r_def by (metis of_nat_add of_nat_mult div_mult_mod_eq)
  have r: "r < den" unfolding r_def using assms by simp
  have rhe: "round_half_even num den = (if den < 2 * r \<or> (2 * r = den \<and> odd q) then q + 1 else q)"
    by (simp add: round_half_even_def ties_to_even_def q_def r_def)
  show "2 * \<bar>int num - int (round_half_even num den) * int den\<bar> \<le> int den"
    using r by (auto simp: rhe num algebra_simps)
  show "even (round_half_even num den)"
    if "2 * \<bar>int num - int (round_half_even num den) * int den\<bar> = int den"
    using that r by (auto simp: rhe num algebra_simps split: if_splits)
qed


lemma scaled_quotient_error:
  assumes d: "0 < d"
  shows "2 * \<bar>real n * 2 powi (x - e) - real (scaled_quotient n d x e) * real d\<bar> \<le> real d"
    and "2 * \<bar>real n * 2 powi (x - e) - real (scaled_quotient n d x e) * real d\<bar> = real d \<Longrightarrow>
         even (scaled_quotient n d x e)"
proof -
  define q where "q = scaled_quotient n d x e"
  have both: "2 * \<bar>real n * 2 powi (x - e) - real q * real d\<bar> \<le> real d \<and>
      (2 * \<bar>real n * 2 powi (x - e) - real q * real d\<bar> = real d \<longrightarrow> even q)"
  proof (cases "e \<le> x")
    case True
    define num where "num = n * 2 ^ nat (x - e)"
    from True have q: "q = round_half_even num d"
      by (simp add: q_def scaled_quotient_def num_def)
    from True have num: "real n * 2 powi (x - e) = real num"
      by (simp add: num_def power_int_def)
    have eq: "2 * \<bar>real num - real q * real d\<bar> =
        real_of_int (2 * \<bar>int num - int q * int d\<bar>)" by simp
    have "real_of_int (2 * \<bar>int num - int q * int d\<bar>) \<le> real_of_int (int d)"
      unfolding q by (simp only: of_int_le_iff round_half_even_error(1) [OF d])
    moreover have "even q"
      if "real_of_int (2 * \<bar>int num - int q * int d\<bar>) = real_of_int (int d)"
      using that round_half_even_error(2) [OF d, of num]
      unfolding q by (simp only: of_int_eq_iff)
    ultimately show ?thesis
      unfolding num eq by simp
  next
    case False
    define j where "j = nat (e - x)"
    define den where "den = d * 2 ^ j"
    from d have den: "0 < den" by (simp add: den_def)
    from False have q: "q = round_half_even n den"
      by (simp add: q_def scaled_quotient_def den_def j_def)
    from False have p: "(2::real) powi (x - e) = 1 / 2 ^ j"
      by (simp add: j_def power_int_def field_simps)
    have pos: "(0::real) < 2 ^ j" by simp
    have scale: "(real n * 2 powi (x - e) - real q * real d) * 2 ^ j =
        real n - real q * real den"
      by (simp add: p den_def algebra_simps)
    have eq: "2 * \<bar>real n - real q * real den\<bar> =
        real_of_int (2 * \<bar>int n - int q * int den\<bar>)" by simp
    have abs: "2 * \<bar>real n * 2 powi (x - e) - real q * real d\<bar> * 2 ^ j =
        2 * \<bar>real n - real q * real den\<bar>"
      using scale [symmetric] by (simp add: abs_mult)
    have le: "real_of_int (2 * \<bar>int n - int q * int den\<bar>) \<le> real_of_int (int den)"
      unfolding q by (simp only: of_int_le_iff round_half_even_error(1) [OF den])
    have "2 * \<bar>real n * 2 powi (x - e) - real q * real d\<bar> * 2 ^ j \<le> real d * 2 ^ j"
      using le unfolding abs eq by (simp add: den_def)
    then have first: "2 * \<bar>real n * 2 powi (x - e) - real q * real d\<bar> \<le> real d"
      using pos by (simp only: mult_le_cancel_right_pos)
    have second: "even q" if "2 * \<bar>real n * 2 powi (x - e) - real q * real d\<bar> = real d"
    proof -
      from that have "2 * \<bar>real n * 2 powi (x - e) - real q * real d\<bar> * 2 ^ j = real d * 2 ^ j"
        by simp
      then have "real_of_int (2 * \<bar>int n - int q * int den\<bar>) = real_of_int (int den)"
        unfolding abs eq by (simp add: den_def)
      then have "2 * \<bar>int n - int q * int den\<bar> = int den"
        by (simp only: of_int_eq_iff)
      then show ?thesis
        using round_half_even_error(2) [OF den, of n] unfolding q by simp
    qed
    from first second show ?thesis by blast
  qed
  then show "2 * \<bar>real n * 2 powi (x - e) - real (scaled_quotient n d x e) * real d\<bar> \<le> real d"
    and "2 * \<bar>real n * 2 powi (x - e) - real (scaled_quotient n d x e) * real d\<bar> = real d \<Longrightarrow>
         even (scaled_quotient n d x e)"
    by (simp_all add: q_def)
qed

lemma float64_round_nearest:
  assumes n: "0 < n" and d: "0 < d"
  shows "case float64_round s n d x of
           Finite t m e \<Rightarrow>
             t = s \<and> m < 2 ^ 53 \<and> - 1074 \<le> e \<and> e \<le> 971 \<and> (m < 2 ^ 52 \<longrightarrow> e = - 1074) \<and>
             2 * \<bar>real n / real d * 2 powi x - real m * 2 powi e\<bar> \<le> 2 powi e \<and>
             (2 * \<bar>real n / real d * 2 powi x - real m * 2 powi e\<bar> = 2 powi e \<longrightarrow> even m)
         | Infinity t \<Rightarrow> t = s \<and> 2 powi 1024 - 2 powi 970 \<le> real n / real d * 2 powi x
         | NaN \<Rightarrow> False"
proof -
  define fl where "fl = floor_log2 n d"
  define e0 where "e0 = max (fl + x - 52) (- 1074)"
  define q where "q = scaled_quotient n d x e0"
  define w where "w = real n / real d * 2 powi (x - e0)"
  have rd: "0 < real d" using d by simp
  have pe0: "(0::real) < 2 powi e0" by simp
  have v: "real n / real d * 2 powi x = w * 2 powi e0"
    by (simp add: w_def power_int_diff)
  have wd: "w * real d = real n * 2 powi (x - e0)"
    using rd by (simp add: w_def)
  have err_d: "2 * \<bar>w * real d - real q * real d\<bar> \<le> real d"
    unfolding wd q_def by (rule scaled_quotient_error(1) [OF d])
  have abs_d: "\<bar>w * real d - real q * real d\<bar> = \<bar>w - real q\<bar> * real d"
    using rd by (simp add: abs_mult left_diff_distrib [symmetric])
  have err: "2 * \<bar>w - real q\<bar> \<le> 1"
    using err_d rd unfolding abs_d by (simp add: field_simps)
  have tie: "even q" if "2 * \<bar>w - real q\<bar> = 1"
  proof -
    from that have "2 * \<bar>w * real d - real q * real d\<bar> = real d"
      unfolding abs_d by (simp add: field_simps)
    then show ?thesis
      unfolding wd q_def by (rule scaled_quotient_error(2) [OF d])
  qed
  have w_upper: "w < 2 ^ 53"
  proof -
    have "real n < real d * 2 powi (fl + 1)"
      unfolding fl_def by (rule floor_log2_bounds(2) [OF n d])
    then have "real n / real d < 2 powi (fl + 1)"
      using rd by (simp add: field_simps)
    then have "w < 2 powi (fl + 1) * 2 powi (x - e0)"
      unfolding w_def by (intro mult_strict_right_mono) simp_all
    also have "\<dots> = 2 powi (fl + 1 + (x - e0))"
      by (simp add: power_int_add)
    also have "\<dots> \<le> 2 powi 53"
      by (intro power_int_increasing) (simp_all add: e0_def)
    finally show ?thesis by simp
  qed
  have w_lower: "2 ^ 52 \<le> w" if "e0 \<noteq> - 1074"
  proof -
    from that have e0: "e0 = fl + x - 52" by (simp add: e0_def max_def split: if_splits)
    have "real d * 2 powi fl \<le> real n"
      unfolding fl_def by (rule floor_log2_bounds(1) [OF n d])
    then have "2 powi fl \<le> real n / real d"
      using rd by (simp add: field_simps)
    then have "2 powi fl * 2 powi (x - e0) \<le> w"
      unfolding w_def by (intro mult_right_mono) simp_all
    moreover have "(2::real) powi fl * 2 powi (x - e0) = 2 powi 52"
      by (simp add: e0 power_int_add [symmetric])
    ultimately show ?thesis by simp
  qed
  have q_upper: "q \<le> 2 ^ 53"
  proof -
    from err have "real q \<le> w + 1 / 2" by argo
    with w_upper have "real q < 2 ^ 53 + 1" by argo
    then have "real q < real (2 ^ 53 + 1)" by simp
    then have "q < 2 ^ 53 + 1" by (simp only: of_nat_less_iff)
    then show ?thesis by simp
  qed
  have q_lower: "2 ^ 52 \<le> q" if "e0 \<noteq> - 1074"
  proof -
    from err have "w - 1 / 2 \<le> real q" by argo
    with w_lower [OF that] have "(2::real) ^ 52 - 1 < real q" by argo
    then have "real (2 ^ 52 - 1) < real q" by simp
    then have "2 ^ 52 - 1 < q" by (simp only: of_nat_less_iff)
    then show ?thesis by simp
  qed
  have e0_low: "- 1074 \<le> e0" by (simp add: e0_def)
  have round: "float64_round s n d x = float64_pack s q e0"
    using n by (simp add: float64_round_def float64_round_at_def q_def e0_def fl_def)
  have w_half: "real q - 1 / 2 \<le> w" using err by argo
  show ?thesis
  proof (cases "q = 2 ^ 53")
    case True
    show ?thesis
    proof (cases "971 < e0 + 1")
      case over: True
      have a: "(2::real) powi 1024 = 2 ^ 53 * 2 powi 971"
        using power_int_add [of "2::real" 53 971] by simp
      have b: "(2::real) powi 970 = 1 / 2 * 2 powi 971"
        using power_int_add [of "2::real" "- 1" 971] by simp
      have "(2::real) powi 1024 - 2 powi 970 = (2 ^ 53 - 1 / 2) * 2 powi 971"
        by (simp only: a b left_diff_distrib)
      also have "\<dots> \<le> (2 ^ 53 - 1 / 2) * 2 powi e0"
        using over by (intro mult_left_mono power_int_increasing) simp_all
      also have "\<dots> \<le> w * 2 powi e0"
        using w_half True by (intro mult_right_mono) simp_all
      finally have "2 powi 1024 - 2 powi 970 \<le> real n / real d * 2 powi x"
        unfolding v .
      then show ?thesis
        using True over by (simp add: round float64_pack_def)
    next
      case fits: False
      have val: "real (2 ^ 52) * 2 powi (e0 + 1) = real q * 2 powi e0"
        by (simp add: True power_int_add)
      have "2 * \<bar>w * 2 powi e0 - real q * 2 powi e0\<bar> = 2 * \<bar>w - real q\<bar> * 2 powi e0"
        using pe0 by (simp add: abs_mult left_diff_distrib [symmetric])
      also have "\<dots> \<le> 1 * 2 powi e0"
        using err by (intro mult_right_mono) simp_all
      also have "\<dots> \<le> 2 powi (e0 + 1)"
        by (simp add: power_int_add)
      finally have "2 * \<bar>real n / real d * 2 powi x - real (2 ^ 52) * 2 powi (e0 + 1)\<bar>
          \<le> 2 powi (e0 + 1)"
        unfolding v val .
      with True fits e0_low show ?thesis
        by (simp add: round float64_pack_def)
    qed
  next
    case False
    show ?thesis
    proof (cases "971 < e0")
      case over: True
      then have "e0 \<noteq> - 1074" by simp
      then have "2 ^ 52 \<le> w" by (rule w_lower)
      have "(2::real) powi 1024 - 2 powi 970 \<le> 2 powi 1024" by simp
      also have "\<dots> = 2 ^ 52 * 2 powi 972"
        using power_int_add [of "2::real" 52 972] by simp
      also have "\<dots> \<le> 2 ^ 52 * 2 powi e0"
        using over by (intro mult_left_mono power_int_increasing) simp_all
      also have "\<dots> \<le> w * 2 powi e0"
        using \<open>2 ^ 52 \<le> w\<close> by (intro mult_right_mono) simp_all
      finally have "2 powi 1024 - 2 powi 970 \<le> real n / real d * 2 powi x"
        unfolding v .
      then show ?thesis
        using False over by (simp add: round float64_pack_def)
    next
      case fits: False
      have eq: "2 * \<bar>w * 2 powi e0 - real q * 2 powi e0\<bar> = 2 * \<bar>w - real q\<bar> * 2 powi e0"
        using pe0 by (simp add: abs_mult left_diff_distrib [symmetric])
      have bound: "2 * \<bar>w * 2 powi e0 - real q * 2 powi e0\<bar> \<le> 2 powi e0"
        unfolding eq using err mult_right_mono [of "2 * \<bar>w - real q\<bar>" 1 "2 powi e0"] by simp
      have even: "even q" if "2 * \<bar>w * 2 powi e0 - real q * 2 powi e0\<bar> = 2 powi e0"
      proof -
        from that have "2 * \<bar>w - real q\<bar> * 2 powi e0 = 1 * 2 powi e0"
          unfolding eq by simp
        then have "2 * \<bar>w - real q\<bar> = 1"
          using pe0 by (simp only: mult_cancel_right) simp
        then show ?thesis by (rule tie)
      qed
      from False q_upper have "q < 2 ^ 53" by simp
      moreover from q_lower have "q < 2 ^ 52 \<longrightarrow> e0 = - 1074" by fastforce
      ultimately show ?thesis
        using False fits e0_low bound even unfolding v
        by (simp add: round float64_pack_def)
    qed
  qed
qed

lemma float64_round_signed:
  assumes n: "0 < n"
  shows "case float64_round z n 1 g of
           Finite u k h \<Rightarrow>
             u = z \<and> k < 2 ^ 53 \<and> - 1074 \<le> h \<and> h \<le> 971 \<and> (k < 2 ^ 52 \<longrightarrow> h = - 1074) \<and>
             2 * \<bar>real_of_int (signed z n) * 2 powi g - float64_value (Finite u k h)\<bar> \<le> 2 powi h \<and>
             (2 * \<bar>real_of_int (signed z n) * 2 powi g - float64_value (Finite u k h)\<bar> = 2 powi h
                \<longrightarrow> even k)
         | Infinity u \<Rightarrow>
             u = z \<and> 2 powi 1024 - 2 powi 970 \<le> \<bar>real_of_int (signed z n) * 2 powi g\<bar>
         | NaN \<Rightarrow> False"
proof (cases "float64_round z n 1 g")
  case (Finite u k h)
  with float64_round_nearest [OF n, of 1 z g] have r: "u = z" "k < 2 ^ 53" "- 1074 \<le> h" "h \<le> 971"
    "k < 2 ^ 52 \<longrightarrow> h = - 1074"
    "2 * \<bar>real n * 2 powi g - real k * 2 powi h\<bar> \<le> 2 powi h"
    "2 * \<bar>real n * 2 powi g - real k * 2 powi h\<bar> = 2 powi h \<longrightarrow> even k"
    by simp_all
  have "\<bar>real_of_int (signed z n) * 2 powi g - float64_value (Finite z k h)\<bar> =
        \<bar>real n * 2 powi g - real k * 2 powi h\<bar>"
    by (cases z) (simp_all add: float64_value_def signed_def abs_minus_commute)
  with r Finite show ?thesis by simp
next
  case (Infinity u)
  with float64_round_nearest [OF n, of 1 z g]
  have r: "u = z" "2 powi 1024 - 2 powi 970 \<le> real n * 2 powi g" by simp_all
  have "\<bar>real_of_int (signed z n) * 2 powi g\<bar> = real n * 2 powi g"
    by (cases z) (simp_all add: signed_def abs_mult)
  with r Infinity show ?thesis by simp
next
  case NaN
  with float64_round_nearest [OF n, of 1 z g] show ?thesis by simp
qed

lemma fadd_exact:
  "real_of_int (signed s (m * 2 ^ nat (e - min e f)) + signed t (n * 2 ^ nat (f - min e f))) *
     2 powi (min e f) =
   float64_value (Finite s m e) + float64_value (Finite t n f)"
proof -
  define g where "g = min e f"
  define A where "A = real_of_int (signed s m) * 2 powi e"
  define B where "B = real_of_int (signed t n) * 2 powi f"
  define P where "P = (2::real) powi (- g)"
  define Q where "Q = (2::real) powi g"
  have ge: "g \<le> e" and gf: "g \<le> f" by (simp_all add: g_def)
  have one: "P * Q = 1"
    by (simp add: P_def Q_def power_int_add [symmetric])
  have "real_of_int (signed s (m * 2 ^ nat (e - g)) + signed t (n * 2 ^ nat (f - g))) * Q =
        (A * P + B * P) * Q"
    by (simp only: of_int_add signed_scale [OF ge] signed_scale [OF gf] A_def B_def P_def)
  also have "\<dots> = (A + B) * (P * Q)"
    by (simp add: algebra_simps)
  also have "\<dots> = A + B"
    by (simp only: one mult_1_right)
  finally show ?thesis
    by (simp add: g_def Q_def A_def B_def float64_value_def)
qed

lemma fmul_exact:
  "real_of_int (signed (s \<noteq> t) (m * n)) * 2 powi (e + f) =
   float64_value (Finite s m e) * float64_value (Finite t n f)"
  by (cases s; cases t) (simp_all add: float64_value_def signed_def power_int_add)

text \<open>
  The sum and the product of two finite values are never NaN. A finite result is in
  canonical form and within half a unit in its last place of the exact real sum or product,
  with an even significand when the exact value lies halfway; an infinity is returned only
  from the overflow threshold \<open>2 ^ 1024 - 2 ^ 970\<close> on.
\<close>

lemma fadd_nearest:
  "case fadd (Finite s m e) (Finite t n f) of
     Finite u k h \<Rightarrow>
       k < 2 ^ 53 \<and> - 1074 \<le> h \<and> h \<le> 971 \<and> (k < 2 ^ 52 \<longrightarrow> h = - 1074) \<and>
       2 * \<bar>float64_value (Finite s m e) + float64_value (Finite t n f) -
            float64_value (Finite u k h)\<bar> \<le> 2 powi h \<and>
       (2 * \<bar>float64_value (Finite s m e) + float64_value (Finite t n f) -
             float64_value (Finite u k h)\<bar> = 2 powi h \<longrightarrow> even k)
   | Infinity u \<Rightarrow>
       2 powi 1024 - 2 powi 970 \<le> \<bar>float64_value (Finite s m e) + float64_value (Finite t n f)\<bar>
   | NaN \<Rightarrow> False"
proof -
  define c where
    "c = signed s (m * 2 ^ nat (e - min e f)) + signed t (n * 2 ^ nat (f - min e f))"
  have sum: "real_of_int c * 2 powi (min e f) =
      float64_value (Finite s m e) + float64_value (Finite t n f)"
    unfolding c_def by (rule fadd_exact)
  show ?thesis
  proof (cases "c = 0")
    case True
    then have r: "fadd (Finite s m e) (Finite t n f) = Finite (s \<and> t) 0 (- 1074)"
      by (simp add: float64_of_sum_def c_def)
    from True sum
    have z: "float64_value (Finite s m e) + float64_value (Finite t n f) = 0" by simp
    show ?thesis
      unfolding r z by (simp add: float64_value_def signed_def)
  next
    case False
    then have pos: "0 < nat \<bar>c\<bar>" by simp
    have sg: "signed (c < 0) (nat \<bar>c\<bar>) = c" by (simp add: signed_def)
    from False have r: "fadd (Finite s m e) (Finite t n f) =
        float64_round (c < 0) (nat \<bar>c\<bar>) 1 (min e f)"
      by (simp add: float64_of_sum_def c_def)
    from float64_round_signed [OF pos, of "c < 0" "min e f"] show ?thesis
      unfolding r sg sum by (simp split: float64.splits)
  qed
qed

lemma fmul_nearest:
  "case fmul (Finite s m e) (Finite t n f) of
     Finite u k h \<Rightarrow>
       k < 2 ^ 53 \<and> - 1074 \<le> h \<and> h \<le> 971 \<and> (k < 2 ^ 52 \<longrightarrow> h = - 1074) \<and>
       2 * \<bar>float64_value (Finite s m e) * float64_value (Finite t n f) -
            float64_value (Finite u k h)\<bar> \<le> 2 powi h \<and>
       (2 * \<bar>float64_value (Finite s m e) * float64_value (Finite t n f) -
             float64_value (Finite u k h)\<bar> = 2 powi h \<longrightarrow> even k)
   | Infinity u \<Rightarrow>
       2 powi 1024 - 2 powi 970 \<le> \<bar>float64_value (Finite s m e) * float64_value (Finite t n f)\<bar>
   | NaN \<Rightarrow> False"
proof (cases "m * n = 0")
  case True
  then have r: "fmul (Finite s m e) (Finite t n f) = Finite (s \<noteq> t) 0 (- 1074)"
    by (simp add: float64_round_def)
  from True have z: "float64_value (Finite s m e) * float64_value (Finite t n f) = 0"
    by (auto simp: float64_value_def signed_def)
  show ?thesis
    unfolding r z by (simp add: float64_value_def signed_def)
next
  case False
  then have pos: "0 < m * n" by simp
  have r: "fmul (Finite s m e) (Finite t n f) = float64_round (s \<noteq> t) (m * n) 1 (e + f)"
    by simp
  from float64_round_signed [OF pos, of "s \<noteq> t" "e + f"] show ?thesis
    unfolding r fmul_exact by (simp split: float64.splits)
qed


lemma float64_const_nearest:
  assumes p: "p \<noteq> 0" and q: "0 < q"
  shows "case float64_const p q of
           Finite u k h \<Rightarrow>
             u = (p < 0) \<and> k < 2 ^ 53 \<and> - 1074 \<le> h \<and> h \<le> 971 \<and>
             (k < 2 ^ 52 \<longrightarrow> h = - 1074) \<and>
             2 * \<bar>\<bar>real_of_int p\<bar> / real_of_int q - real k * 2 powi h\<bar> \<le> 2 powi h \<and>
             (2 * \<bar>\<bar>real_of_int p\<bar> / real_of_int q - real k * 2 powi h\<bar> = 2 powi h \<longrightarrow> even k)
         | Infinity u \<Rightarrow> u = (p < 0) \<and> 2 powi 1024 - 2 powi 970 \<le> \<bar>real_of_int p\<bar> / real_of_int q
         | NaN \<Rightarrow> False"
proof -
  from p have n: "0 < nat \<bar>p\<bar>" by simp
  from q have d: "0 < nat q" by simp
  have v: "real (nat \<bar>p\<bar>) / real (nat q) * 2 powi 0 = \<bar>real_of_int p\<bar> / real_of_int q"
    using q by simp
  from float64_round_nearest [OF n d, of "p < 0" 0] show ?thesis
    unfolding float64_const_def v .
qed

section \<open>Properties of the collector\<close>

lemma CollectTokenInfo_range_fails:
  assumes "\<forall>s \<in> set srcs. \<not> token_info_succeeds symbol s"
  shows "CollectTokenInfo_range srcs symbol logged =
           (Inl NotFound_token_info, logged @ map (token_info_failure_entry symbol) srcs)"
  using assms
proof (induction srcs arbitrary: logged)
  case Nil
  then show ?case by (simp add: NotFound_token_info_def)
next
  case (Cons s srcs)
  then show ?case
    by (cases "source_CollectTokenInfo s symbol")
       (auto simp: token_info_succeeds_def token_info_failure_entry_def
             split: option.splits)
qed

lemma CollectTokenInfo_range_first:
  assumes "\<forall>s \<in> set before. \<not> token_info_succeeds symbol s"
    and "source_CollectTokenInfo s symbol = (Some info, None)"
  shows "CollectTokenInfo_range (before @ s # after) symbol logged =
           (Inr info,
            logged @ map (token_info_failure_entry symbol) before @
              [Info ''collected token info''
                 [Str ''source'', Str (source_Name s), Str ''symbol'', Str symbol]])"
  using assms
proof (induction before arbitrary: logged)
  case Nil
  then show ?case by simp
next
  case (Cons b before)
  then show ?case
    by (cases "source_CollectTokenInfo b symbol")
       (auto simp: token_info_succeeds_def token_info_failure_entry_def
             split: option.splits)
qed

lemma find_first_split:
  assumes "\<forall>y \<in> set ys. \<not> P y" and "P x"
  shows "List.find P (ys @ x # zs) = Some x"
  using assms by (induction ys) auto

lemma takeWhile_first_split:
  assumes "\<forall>y \<in> set ys. \<not> P y" and "P x"
  shows "takeWhile (\<lambda>s. \<not> P s) (ys @ x # zs) = ys"
  using assms by (induction ys) auto

text \<open>
  Claim C4. \<^verbatim>\<open>CollectTokenInfo\<close> tries the sources in their registration order and returns
  the result of the first source that succeeds, after logging one failure for each source
  before it; it returns the not-found error exactly when every registered source fails,
  which includes an empty list of sources.
\<close>

theorem CollectTokenInfo_first_success:
  "CollectTokenInfo c symbol =
     (case List.find (token_info_succeeds symbol) (sources c) of
        None \<Rightarrow>
          (Inl NotFound_token_info, map (token_info_failure_entry symbol) (sources c))
      | Some s \<Rightarrow>
          (Inr (the (fst (source_CollectTokenInfo s symbol))),
           map (token_info_failure_entry symbol)
               (takeWhile (\<lambda>s. \<not> token_info_succeeds symbol s) (sources c)) @
           [Info ''collected token info''
              [Str ''source'', Str (source_Name s), Str ''symbol'', Str symbol]]))
   \<and> ((\<exists>e. fst (CollectTokenInfo c symbol) = Inl e) \<longleftrightarrow>
        (\<forall>s \<in> set (sources c). \<not> token_info_succeeds symbol s))"
proof (cases "\<forall>s \<in> set (sources c). \<not> token_info_succeeds symbol s")
  case True
  then have "List.find (token_info_succeeds symbol) (sources c) = None"
    by (simp add: find_None_iff)
  with True show ?thesis
    by (simp add: CollectTokenInfo_def CollectTokenInfo_range_fails)
next
  case False
  then have "\<exists>s \<in> set (sources c). token_info_succeeds symbol s" by blast
  then obtain ys x zs where split: "sources c = ys @ x # zs"
    and x: "token_info_succeeds symbol x"
    and ys: "\<forall>y \<in> set ys. \<not> token_info_succeeds symbol y"
    by (auto dest!: split_list_first_prop)
  from x obtain info where info: "source_CollectTokenInfo x symbol = (Some info, None)"
    by (cases "source_CollectTokenInfo x symbol") (auto simp: token_info_succeeds_def)
  have "CollectTokenInfo c symbol =
          (Inr info, map (token_info_failure_entry symbol) ys @
             [Info ''collected token info''
                [Str ''source'', Str (source_Name x), Str ''symbol'', Str symbol]])"
    using CollectTokenInfo_range_first [OF ys info, of zs "[]"]
    by (simp add: CollectTokenInfo_def split)
  with False show ?thesis
    by (simp add: split find_first_split [OF ys x] takeWhile_first_split [OF ys x] info)
qed

theorem CollectTokenInfo_first_success_witness:
  "fst (CollectTokenInfo \<lparr>sources = [failing_source, answering_source]\<rparr> ''BTC'') =
     Inr example_token
   \<and> fst (CollectTokenInfo \<lparr>sources = [failing_source, failing_source]\<rparr> ''BTC'') =
     Inl NotFound_token_info
   \<and> fst (CollectTokenInfo \<lparr>sources = []\<rparr> ''BTC'') = Inl NotFound_token_info"
  using
    CollectTokenInfo_first_success [of "\<lparr>sources = [failing_source, answering_source]\<rparr>" "''BTC''"]
    CollectTokenInfo_first_success [of "\<lparr>sources = [failing_source, failing_source]\<rparr>" "''BTC''"]
    CollectTokenInfo_first_success [of "\<lparr>sources = []\<rparr>" "''BTC''"]
  by (simp add: token_info_succeeds_def failing_source_def answering_source_def)

lemma fmdom_fempty_iff: "fmdom m = {||} \<longleftrightarrow> m = fmempty"
proof
  assume "fmdom m = {||}"
  then have "fmlookup m k = None" for k
    by (metis fmdom_notD fempty_iff)
  then show "m = fmempty"
    by (intro fmap_ext) simp
qed simp

lemma len_map_0_iff: "len_map m = 0 \<longleftrightarrow> m = fmempty"
  by (simp add: len_map_def fmdom_fempty_iff)

lemma fmadd_fmempty_iff: "m ++\<^sub>f n = fmempty \<longleftrightarrow> m = fmempty \<and> n = fmempty"
proof -
  have "m ++\<^sub>f n = fmempty \<longleftrightarrow> fmdom (m ++\<^sub>f n) = {||}"
    by (simp only: fmdom_fempty_iff)
  also have "\<dots> \<longleftrightarrow> fmdom m = {||} \<and> fmdom n = {||}"
    by auto
  finally show ?thesis
    by (simp only: fmdom_fempty_iff)
qed

lemma CollectSocialMetrics_go_add:
  "CollectSocialMetrics_go symbol src results = results ++\<^sub>f social_metrics_of symbol src"
  by (cases "source_CollectSocialMetrics src symbol")
     (auto simp: CollectSocialMetrics_go_def social_metrics_of_def split: option.splits)

lemma CollectSocialMetrics_go_fun:
  "CollectSocialMetrics_go symbol src = (\<lambda>r. r ++\<^sub>f social_metrics_of symbol src)"
  by (rule ext) (rule CollectSocialMetrics_go_add)

lemma fold_fmadd_dom:
  "k |\<in>| fmdom (fold (\<lambda>i r. r ++\<^sub>f f i) sched acc) \<longleftrightarrow>
     k |\<in>| fmdom acc \<or> (\<exists>i \<in> set sched. k |\<in>| fmdom (f i))"
  by (induction sched arbitrary: acc) auto

lemma fold_fmadd_lookup:
  "fmlookup (fold (\<lambda>i r. r ++\<^sub>f f i) sched acc) k = Some v \<Longrightarrow>
     fmlookup acc k = Some v \<or> (\<exists>i \<in> set sched. fmlookup (f i) k = Some v)"
proof (induction sched arbitrary: acc)
  case Nil
  then show ?case by simp
next
  case (Cons i sched)
  from Cons.IH [of "acc ++\<^sub>f f i"] Cons.prems show ?case
    by (auto split: if_splits)
qed

lemma fold_fmadd_fmempty_iff:
  "fold (\<lambda>i r. r ++\<^sub>f f i) sched acc = fmempty \<longleftrightarrow>
     acc = fmempty \<and> (\<forall>i \<in> set sched. f i = fmempty)"
  by (induction sched arbitrary: acc) (auto simp: fmadd_fmempty_iff)

lemma fmadd_disjoint_commute:
  assumes "fmdom m |\<inter>| fmdom n = {||}"
  shows "(r ++\<^sub>f m) ++\<^sub>f n = (r ++\<^sub>f n) ++\<^sub>f m"
proof (rule fmap_ext)
  fix k
  from assms have "\<not> (k |\<in>| fmdom m \<and> k |\<in>| fmdom n)"
    by (metis fempty_iff finterI)
  then show "fmlookup ((r ++\<^sub>f m) ++\<^sub>f n) k = fmlookup ((r ++\<^sub>f n) ++\<^sub>f m) k"
    by auto
qed

lemma schedule_set:
  assumes "is_schedule c schedule"
  shows "set schedule = {0..<length (sources c)}"
  using mset_eq_setD [OF assms [unfolded is_schedule_def]] by simp

lemma schedule_sources:
  assumes "is_schedule c schedule"
  shows "(\<exists>i \<in> set schedule. P (sources c ! i)) \<longleftrightarrow> (\<exists>src \<in> set (sources c). P src)"
proof -
  have "(\<exists>i \<in> set schedule. P (sources c ! i)) \<longleftrightarrow>
          (\<exists>i < length (sources c). P (sources c ! i))"
    by (simp add: schedule_set [OF assms] Bex_def)
  also have "\<dots> \<longleftrightarrow> (\<exists>src \<in> set (sources c). P src)"
    by (metis in_set_conv_nth)
  finally show ?thesis .
qed

lemma schedule_sources_all:
  assumes "is_schedule c schedule"
  shows "(\<forall>i \<in> set schedule. P (sources c ! i)) \<longleftrightarrow> (\<forall>src \<in> set (sources c). P src)"
  using schedule_sources [OF assms, of "\<lambda>src. \<not> P src"] by blast

lemma fold_schedule_independent:
  assumes sched: "is_schedule c schedule"
    and disj: "\<forall>i j. i < j \<and> j < length (sources c) \<longrightarrow>
      fmdom (f (sources c ! i)) |\<inter>| fmdom (f (sources c ! j)) = {||}"
  shows "fold (\<lambda>i r. r ++\<^sub>f f (sources c ! i)) schedule acc =
         fold (\<lambda>i r. r ++\<^sub>f f (sources c ! i)) [0..<length (sources c)] acc"
proof -
  have "(\<lambda>r. r ++\<^sub>f f (sources c ! i)) \<circ> (\<lambda>r. r ++\<^sub>f f (sources c ! j)) =
        (\<lambda>r. r ++\<^sub>f f (sources c ! j)) \<circ> (\<lambda>r. r ++\<^sub>f f (sources c ! i))"
    if "i \<in> set schedule" "j \<in> set schedule" for i j
  proof -
    from that have lt: "i < length (sources c)" "j < length (sources c)"
      by (simp_all add: schedule_set [OF sched])
    consider "i < j" | "j < i" | "i = j" by linarith
    then show ?thesis
    proof cases
      case 1
      with disj lt show ?thesis
        by (auto simp: fun_eq_iff intro!: fmadd_disjoint_commute [symmetric])
    next
      case 2
      with disj lt show ?thesis
        by (auto simp: fun_eq_iff intro!: fmadd_disjoint_commute)
    next
      case 3
      then show ?thesis by simp
    qed
  qed
  then have "fold (\<lambda>i r. r ++\<^sub>f f (sources c ! i)) schedule =
             fold (\<lambda>i r. r ++\<^sub>f f (sources c ! i)) [0..<length (sources c)]"
    using sched [unfolded is_schedule_def] by (rule fold_multiset_equiv)
  then show ?thesis by simp
qed

lemma fmupd_not_fmempty: "fmupd k v m \<noteq> fmempty"
proof
  assume "fmupd k v m = fmempty"
  then have "fmlookup (fmupd k v m) k = fmlookup fmempty k" by simp
  then show False by simp
qed

lemma schedules_of_two:
  "is_schedule \<lparr>sources = [a, b]\<rparr> [1, 0]" "is_schedule \<lparr>sources = [a, b]\<rparr> [0, 1]"
  by (simp_all add: is_schedule_def upt_rec)


text \<open>
  Claim C5. For every order in which the fetches complete, \<^verbatim>\<open>CollectSocialMetrics\<close> merges
  the maps of the sources that succeed: it returns the not-found error exactly when nothing
  was merged (every source failed or returned an empty map); otherwise the keys of the
  result are the keys of the succeeding sources, and each value comes from one of them.
  When the sources report disjoint keys the result does not depend on the completion
  order, and for two such sources it is the union of their two maps.
\<close>

theorem CollectSocialMetrics_merge:
  assumes "is_schedule c schedule"
  shows
    "(CollectSocialMetrics c symbol schedule = Inl NotFound_social_metrics \<longleftrightarrow>
        (\<forall>src \<in> set (sources c). social_metrics_of symbol src = fmempty)) \<and>
     (\<forall>m. CollectSocialMetrics c symbol schedule = Inr m \<longrightarrow>
        (\<forall>k. k |\<in>| fmdom m \<longleftrightarrow>
           (\<exists>src \<in> set (sources c). k |\<in>| fmdom (social_metrics_of symbol src))) \<and>
        (\<forall>k v. fmlookup m k = Some v \<longrightarrow>
           (\<exists>src \<in> set (sources c). fmlookup (social_metrics_of symbol src) k = Some v))) \<and>
     ((\<forall>i j. i < j \<and> j < length (sources c) \<longrightarrow>
          fmdom (social_metrics_of symbol (sources c ! i)) |\<inter>|
          fmdom (social_metrics_of symbol (sources c ! j)) = {||}) \<longrightarrow>
        CollectSocialMetrics c symbol schedule =
        CollectSocialMetrics c symbol [0..<length (sources c)]) \<and>
     (\<forall>a b. sources c = [a, b] \<and>
          fmdom (social_metrics_of symbol a) |\<inter>| fmdom (social_metrics_of symbol b) = {||} \<and>
          social_metrics_of symbol a ++\<^sub>f social_metrics_of symbol b \<noteq> fmempty \<longrightarrow>
        CollectSocialMetrics c symbol schedule =
          Inr (social_metrics_of symbol a ++\<^sub>f social_metrics_of symbol b))"
proof -
  define merged where
    "merged sched = fold (\<lambda>i r. r ++\<^sub>f social_metrics_of symbol (sources c ! i)) sched fmempty"
    for sched
  have result: "CollectSocialMetrics c symbol sched =
      (if merged sched = fmempty then Inl NotFound_social_metrics else Inr (merged sched))"
    for sched
    by (simp add: CollectSocialMetrics_def CollectSocialMetrics_go_fun len_map_0_iff merged_def
          NotFound_social_metrics_def)
  have empty: "merged schedule = fmempty \<longleftrightarrow>
      (\<forall>src \<in> set (sources c). social_metrics_of symbol src = fmempty)"
    unfolding merged_def fold_fmadd_fmempty_iff
    using schedule_sources_all [OF assms, of "\<lambda>src. social_metrics_of symbol src = fmempty"]
    by simp
  have keys: "k |\<in>| fmdom (merged schedule) \<longleftrightarrow>
      (\<exists>src \<in> set (sources c). k |\<in>| fmdom (social_metrics_of symbol src))" for k
    unfolding merged_def fold_fmadd_dom
    using schedule_sources [OF assms, of "\<lambda>src. k |\<in>| fmdom (social_metrics_of symbol src)"]
    by simp
  have origin: "\<exists>src \<in> set (sources c). fmlookup (social_metrics_of symbol src) k = Some v"
    if "fmlookup (merged schedule) k = Some v" for k v
    using fold_fmadd_lookup [OF that [unfolded merged_def]]
      schedule_sources [OF assms, of "\<lambda>src. fmlookup (social_metrics_of symbol src) k = Some v"]
    by simp
  have independent: "merged schedule = merged [0..<length (sources c)]"
    if "\<forall>i j. i < j \<and> j < length (sources c) \<longrightarrow>
          fmdom (social_metrics_of symbol (sources c ! i)) |\<inter>|
          fmdom (social_metrics_of symbol (sources c ! j)) = {||}"
    unfolding merged_def using assms that by (rule fold_schedule_independent)
  have two: "merged schedule = social_metrics_of symbol a ++\<^sub>f social_metrics_of symbol b"
    if "sources c = [a, b]"
      and "fmdom (social_metrics_of symbol a) |\<inter>| fmdom (social_metrics_of symbol b) = {||}"
    for a b
  proof -
    have "\<forall>i j. i < j \<and> j < length (sources c) \<longrightarrow>
          fmdom (social_metrics_of symbol (sources c ! i)) |\<inter>|
          fmdom (social_metrics_of symbol (sources c ! j)) = {||}"
      using that by (auto simp: less_Suc_eq)
    then have "merged schedule = merged [0..<length (sources c)]"
      by (rule independent)
    also have "[0..<length (sources c)] = [0, 1]"
      using that(1) by (simp add: upt_rec)
    finally show ?thesis
      using that(1) by (simp add: merged_def)
  qed
  show ?thesis
    using empty keys origin independent two by (auto simp: result)
qed

theorem CollectSocialMetrics_merge_witness:
  "CollectSocialMetrics \<lparr>sources = [twitter_source, reddit_source]\<rparr> ''BTC'' [1, 0] =
     Inr (fmupd ''reddit'' (float64_const 2 1) (fmupd ''twitter'' (float64_const 1 1) fmempty)) \<and>
   CollectSocialMetrics \<lparr>sources = [twitter_source, reddit_source]\<rparr> ''BTC'' [0, 1] =
     Inr (fmupd ''reddit'' (float64_const 2 1) (fmupd ''twitter'' (float64_const 1 1) fmempty)) \<and>
   CollectSocialMetrics \<lparr>sources = [failing_source, answering_source]\<rparr> ''BTC'' [1, 0] =
     Inl NotFound_social_metrics"
  using
    CollectSocialMetrics_merge [OF schedules_of_two(1), of twitter_source reddit_source "''BTC''"]
    CollectSocialMetrics_merge [OF schedules_of_two(2), of twitter_source reddit_source "''BTC''"]
    CollectSocialMetrics_merge [OF schedules_of_two(1), of failing_source answering_source "''BTC''"]
  by (simp add: social_metrics_of_def twitter_source_def reddit_source_def failing_source_def
        answering_source_def fmupd_not_fmempty)

section \<open>Properties of the risk engine\<close>

lemmas check_defs =
  check_position_size_def check_daily_loss_def check_market_order_def
  check_trading_volume_def check_trade_frequency_def

lemmas condition_defs =
  exceeds_position_size_def exceeds_loss_per_trade_def exceeds_daily_loss_def
  is_market_order_def exceeds_daily_volume_def high_trade_frequency_def order_value_def

lemma check_position_size_exceeds:
  assumes "fgt v (MaxPositionSize p)"
  shows "check_position_size F p order v a =
           a\<lparr>IsAcceptable := False,
             RiskLevel := fadd (RiskLevel a) (float64_const 3 10),
             RiskFactors := RiskFactors a @ [''Position size exceeds maximum allowed''],
             Recommendations := Recommendations a @
               [''Reduce position size below '' @ F (MaxPositionSize p)]\<rparr>"
  using assms by (simp add: check_position_size_def)

lemma check_position_size_loss:
  assumes "\<not> fgt v (MaxPositionSize p)"
    and "Side order = ''buy''" and "fgt (fmul v (float64_const 1 10)) (MaxLossPerTrade p)"
  shows "check_position_size F p order v a =
           a\<lparr>IsAcceptable := False,
             RiskLevel := fadd (RiskLevel a) (float64_const 25 100),
             RiskFactors := RiskFactors a @
               [''Potential loss exceeds maximum allowed per trade''],
             Recommendations := Recommendations a @
               [''Reduce position size to limit potential loss below '' @
                F (MaxLossPerTrade p)]\<rparr>"
  using assms by (simp add: check_position_size_def)

lemma check_position_size_passes:
  assumes "\<not> fgt v (MaxPositionSize p)"
    and "\<not> (Side order = ''buy'' \<and> fgt (fmul v (float64_const 1 10)) (MaxLossPerTrade p))"
  shows "check_position_size F p order v a = a"
  using assms by (auto simp: check_position_size_def)

lemma check_daily_loss_fields:
  "IsAcceptable (check_daily_loss rm p v a) \<longleftrightarrow>
     IsAcceptable a \<and>
     \<not> fgt (fadd (totalLoss (dailyStats rm)) (fmul v (float64_const 1 10))) (MaxDailyLoss p)"
  "RiskLevel (check_daily_loss rm p v a) =
     foldl fadd (RiskLevel a)
       (if fgt (fadd (totalLoss (dailyStats rm)) (fmul v (float64_const 1 10))) (MaxDailyLoss p)
        then [float64_const 25 100] else [])"
  "RiskFactors (check_daily_loss rm p v a) =
     RiskFactors a @
       (if fgt (fadd (totalLoss (dailyStats rm)) (fmul v (float64_const 1 10))) (MaxDailyLoss p)
        then [''Trade could exceed maximum daily loss limit''] else [])"
  "Recommendations (check_daily_loss rm p v a) =
     Recommendations a @
       (if fgt (fadd (totalLoss (dailyStats rm)) (fmul v (float64_const 1 10))) (MaxDailyLoss p)
        then [''Wait for daily loss limit to reset or reduce position size''] else [])"
  by (simp_all add: check_daily_loss_def)

lemma check_market_order_fields:
  "IsAcceptable (check_market_order order a) \<longleftrightarrow> IsAcceptable a"
  "RiskLevel (check_market_order order a) =
     foldl fadd (RiskLevel a) (if OrderType order = ''market'' then [float64_const 1 10] else [])"
  "RiskFactors (check_market_order order a) =
     RiskFactors a @
       (if OrderType order = ''market'' then [''Market order may result in slippage''] else [])"
  "Recommendations (check_market_order order a) =
     Recommendations a @
       (if OrderType order = ''market''
        then [''Consider using limit order for better price control''] else [])"
  by (simp_all add: check_market_order_def)

lemma check_trading_volume_fields:
  "IsAcceptable (check_trading_volume rm p v a) \<longleftrightarrow>
     IsAcceptable a \<and>
     \<not> fgt (fadd (tradingVolume (dailyStats rm)) v) (fmul (MaxPositionSize p) (float64_const 5 1))"
  "RiskLevel (check_trading_volume rm p v a) =
     foldl fadd (RiskLevel a)
       (if fgt (fadd (tradingVolume (dailyStats rm)) v) (fmul (MaxPositionSize p) (float64_const 5 1))
        then [float64_const 2 10] else [])"
  "RiskFactors (check_trading_volume rm p v a) =
     RiskFactors a @
       (if fgt (fadd (tradingVolume (dailyStats rm)) v) (fmul (MaxPositionSize p) (float64_const 5 1))
        then [''Daily trading volume would exceed safe limits''] else [])"
  "Recommendations (check_trading_volume rm p v a) =
     Recommendations a @
       (if fgt (fadd (tradingVolume (dailyStats rm)) v) (fmul (MaxPositionSize p) (float64_const 5 1))
        then [''Reduce trading volume or wait for daily reset''] else [])"
  by (simp_all add: check_trading_volume_def)

lemma check_trade_frequency_fields:
  "IsAcceptable (check_trade_frequency rm a) \<longleftrightarrow> IsAcceptable a"
  "RiskLevel (check_trade_frequency rm a) =
     foldl fadd (RiskLevel a)
       (if 100 < tradeCount (dailyStats rm) then [float64_const 15 100] else [])"
  "RiskFactors (check_trade_frequency rm a) =
     RiskFactors a @
       (if 100 < tradeCount (dailyStats rm) then [''High trading frequency detected''] else [])"
  "Recommendations (check_trade_frequency rm a) =
     Recommendations a @
       (if 100 < tradeCount (dailyStats rm)
        then [''Consider reducing trading frequency''] else [])"
  by (simp_all add: check_trade_frequency_def)

lemmas later_fields =
  check_daily_loss_fields check_market_order_fields check_trading_volume_fields
  check_trade_frequency_fields

lemma foldl_fadd_later_weights:
  "foldl fadd (foldl fadd (foldl fadd (foldl fadd x
      (if exceeds_daily_loss rm order then [float64_const 25 100] else []))
      (if is_market_order order then [float64_const 1 10] else []))
      (if exceeds_daily_volume rm order then [float64_const 2 10] else []))
      (if high_trade_frequency rm then [float64_const 15 100] else []) =
   foldl fadd x (later_weights rm order)"
  by (simp only: later_weights_def foldl_append)

lemmas test_defs =
  test_manager_def NewBasicRiskManager_def test_params_def test_order_def

lemma first_weight:
  "fadd (float64_const 0 1) (float64_const 3 10) = float64_const 3 10"
  "fadd (float64_const 0 1) (float64_const 25 100) = float64_const 25 100"
  "fadd (float64_const 0 1) (float64_const 1 10) = float64_const 1 10"
  by (simp_all add: float64_eval)

lemma position_and_market_weight:
  "fadd (float64_const 3 10) (float64_const 1 10) = float64_const 4 10"
  by (simp add: float64_eval)

text \<open>
  The arithmetic is not that of the real numbers: one tenth is not a binary64 value, and
  the sum of the constants 0.1 and 0.2 is not the constant 0.3.
\<close>

lemma binary64_not_exact:
  "float64_const 1 10 = Finite False 7205759403792794 (- 56)"
  "fadd (float64_const 1 10) (float64_const 2 10) \<noteq> float64_const 3 10"
  by (simp_all add: float64_eval)

lemma conditions_safe_order:
  "\<not> exceeds_position_size (test_manager test_params) (test_order ''buy'' 1 ''limit'')"
  "\<not> exceeds_loss_per_trade (test_manager test_params) (test_order ''buy'' 1 ''limit'')"
  "\<not> exceeds_daily_loss (test_manager test_params) (test_order ''buy'' 1 ''limit'')"
  "\<not> is_market_order (test_order ''buy'' 1 ''limit'')"
  "\<not> exceeds_daily_volume (test_manager test_params) (test_order ''buy'' 1 ''limit'')"
  "\<not> high_trade_frequency (test_manager test_params)"
  by (simp_all add: condition_defs test_defs float64_eval)

lemma conditions_excessive_order:
  "exceeds_position_size (test_manager test_params) (test_order ''buy'' 20 ''limit'')"
  "exceeds_loss_per_trade (test_manager test_params) (test_order ''buy'' 20 ''limit'')"
  "\<not> exceeds_daily_loss (test_manager test_params) (test_order ''buy'' 20 ''limit'')"
  "\<not> is_market_order (test_order ''buy'' 20 ''limit'')"
  "\<not> exceeds_daily_volume (test_manager test_params) (test_order ''buy'' 20 ''limit'')"
  "\<not> high_trade_frequency (test_manager test_params)"
  by (simp_all add: condition_defs test_defs float64_eval)

lemma conditions_market_order:
  "\<not> exceeds_position_size (test_manager test_params) (test_order ''buy'' 1 ''market'')"
  "\<not> exceeds_loss_per_trade (test_manager test_params) (test_order ''buy'' 1 ''market'')"
  "\<not> exceeds_daily_loss (test_manager test_params) (test_order ''buy'' 1 ''market'')"
  "is_market_order (test_order ''buy'' 1 ''market'')"
  "\<not> exceeds_daily_volume (test_manager test_params) (test_order ''buy'' 1 ''market'')"
  "\<not> high_trade_frequency (test_manager test_params)"
  by (simp_all add: condition_defs test_defs float64_eval)

lemma conditions_large_market_order:
  "exceeds_position_size (test_manager test_params) (test_order ''buy'' 15 ''market'')"
  "\<not> exceeds_daily_loss (test_manager test_params) (test_order ''buy'' 15 ''market'')"
  "is_market_order (test_order ''buy'' 15 ''market'')"
  "\<not> exceeds_daily_volume (test_manager test_params) (test_order ''buy'' 15 ''market'')"
  "\<not> high_trade_frequency (test_manager test_params)"
  by (simp_all add: condition_defs test_defs float64_eval)

lemma loss_and_market_weight:
  "fadd (float64_const 25 100) (float64_const 1 10) = float64_const 35 100"
  by (simp add: float64_eval)

lemma conditions_loss_market_order:
  "\<not> exceeds_position_size (test_manager loss_test_params) (test_order ''buy'' 1 ''market'')"
  "exceeds_loss_per_trade (test_manager loss_test_params) (test_order ''buy'' 1 ''market'')"
  "\<not> exceeds_daily_loss (test_manager loss_test_params) (test_order ''buy'' 1 ''market'')"
  "is_market_order (test_order ''buy'' 1 ''market'')"
  "\<not> exceeds_daily_volume (test_manager loss_test_params) (test_order ''buy'' 1 ''market'')"
  "\<not> high_trade_frequency (test_manager loss_test_params)"
  by (simp_all add: condition_defs test_defs loss_test_params_def float64_eval)

lemma conditions_loss_order:
  "\<not> exceeds_position_size (test_manager loss_test_params) (test_order ''buy'' 1 ''limit'')"
  "exceeds_loss_per_trade (test_manager loss_test_params) (test_order ''buy'' 1 ''limit'')"
  "\<not> exceeds_daily_loss (test_manager loss_test_params) (test_order ''buy'' 1 ''limit'')"
  "\<not> is_market_order (test_order ''buy'' 1 ''limit'')"
  "\<not> exceeds_daily_volume (test_manager loss_test_params) (test_order ''buy'' 1 ''limit'')"
  "\<not> high_trade_frequency (test_manager loss_test_params)"
  by (simp_all add: condition_defs test_defs loss_test_params_def float64_eval)


text \<open>
  Claim C1. The first two checks exclude each other. When the value of the order exceeds
  \<^verbatim>\<open>MaxPositionSize\<close> the assessment is rejected, 0.3 is the first weight added to the risk
  level, the position-size factor is the first factor, and the per-trade-loss check is not
  evaluated: its factor is absent even when its condition holds. Otherwise the assessment is
  rejected with first weight 0.25 and the per-trade-loss factor exactly when the order is a
  buy whose estimated loss exceeds \<^verbatim>\<open>MaxLossPerTrade\<close>. The two factors never both appear,
  each appears exactly when its check fires, and the assessment is acceptable exactly when
  none of the rejecting checks (position size, per-trade loss, daily loss, daily volume)
  fires: when neither of the first two checks fires they leave the assessment as it was.
\<close>

theorem CheckTradeRisk_position_or_loss:
  "\<exists>a. CheckTradeRisk Sprintf_2f rm (Some order) = Inr a \<and>
     (IsAcceptable a \<longleftrightarrow>
        \<not> exceeds_position_size rm order \<and> \<not> exceeds_loss_per_trade rm order \<and>
        \<not> exceeds_daily_loss rm order \<and> \<not> exceeds_daily_volume rm order) \<and>
     (''Position size exceeds maximum allowed'' \<in> set (RiskFactors a) \<longleftrightarrow>
        exceeds_position_size rm order) \<and>
     (''Potential loss exceeds maximum allowed per trade'' \<in> set (RiskFactors a) \<longleftrightarrow>
        \<not> exceeds_position_size rm order \<and> exceeds_loss_per_trade rm order) \<and>
     (exceeds_position_size rm order \<longrightarrow>
        \<not> IsAcceptable a \<and>
        RiskLevel a =
          foldl fadd (fadd (float64_const 0 1) (float64_const 3 10)) (later_weights rm order) \<and>
        take 1 (RiskFactors a) = [''Position size exceeds maximum allowed''] \<and>
        take 1 (Recommendations a) =
          [''Reduce position size below '' @ Sprintf_2f (MaxPositionSize (params rm))] \<and>
        ''Potential loss exceeds maximum allowed per trade'' \<notin> set (RiskFactors a)) \<and>
     (\<not> exceeds_position_size rm order \<and> exceeds_loss_per_trade rm order \<longrightarrow>
        \<not> IsAcceptable a \<and>
        RiskLevel a =
          foldl fadd (fadd (float64_const 0 1) (float64_const 25 100)) (later_weights rm order) \<and>
        take 1 (RiskFactors a) = [''Potential loss exceeds maximum allowed per trade''] \<and>
        take 1 (Recommendations a) =
          [''Reduce position size to limit potential loss below '' @
           Sprintf_2f (MaxLossPerTrade (params rm))] \<and>
        ''Position size exceeds maximum allowed'' \<notin> set (RiskFactors a)) \<and>
     (\<not> exceeds_position_size rm order \<and> \<not> exceeds_loss_per_trade rm order \<longrightarrow>
        (IsAcceptable a \<longleftrightarrow>
           \<not> exceeds_daily_loss rm order \<and> \<not> exceeds_daily_volume rm order) \<and>
        RiskLevel a = foldl fadd (float64_const 0 1) (later_weights rm order) \<and>
        ''Position size exceeds maximum allowed'' \<notin> set (RiskFactors a) \<and>
        ''Potential loss exceeds maximum allowed per trade'' \<notin> set (RiskFactors a))"
proof -
  define v where "v = fmul (Amount order) (Price order)"
  define a0 where "a0 = \<lparr>IsAcceptable = True, RiskLevel = float64_const 0 1,
                          RiskFactors = [], Recommendations = []\<rparr>"
  define a1 where "a1 = check_position_size Sprintf_2f (params rm) order v a0"
  define a where "a = check_trade_frequency rm (check_trading_volume rm (params rm) v
                        (check_market_order order (check_daily_loss rm (params rm) v a1)))"
  have res: "CheckTradeRisk Sprintf_2f rm (Some order) = Inr a"
    by (simp add: CheckTradeRisk_def Let_def a_def a1_def a0_def v_def)
  have level: "RiskLevel a = foldl fadd (RiskLevel a1) (later_weights rm order)"
    unfolding a_def later_fields
    using foldl_fadd_later_weights [of "RiskLevel a1" rm order]
    by (simp add: condition_defs v_def)
  have accept: "IsAcceptable a \<longleftrightarrow>
      IsAcceptable a1 \<and> \<not> exceeds_daily_loss rm order \<and> \<not> exceeds_daily_volume rm order"
    unfolding a_def later_fields by (simp add: condition_defs v_def)
  have factors: "\<exists>later. RiskFactors a = RiskFactors a1 @ later \<and>
      ''Position size exceeds maximum allowed'' \<notin> set later \<and>
      ''Potential loss exceeds maximum allowed per trade'' \<notin> set later"
    unfolding a_def later_fields by simp
  then obtain later where later: "RiskFactors a = RiskFactors a1 @ later"
    "''Position size exceeds maximum allowed'' \<notin> set later"
    "''Potential loss exceeds maximum allowed per trade'' \<notin> set later"
    by blast
  have "\<exists>later. Recommendations a = Recommendations a1 @ later"
    unfolding a_def later_fields by simp
  then obtain recs where recs: "Recommendations a = Recommendations a1 @ recs"
    by blast
  have c1: "exceeds_position_size rm order \<longleftrightarrow> fgt v (MaxPositionSize (params rm))"
    by (simp add: condition_defs v_def)
  have c2: "exceeds_loss_per_trade rm order \<longleftrightarrow>
      Side order = ''buy'' \<and> fgt (fmul v (float64_const 1 10)) (MaxLossPerTrade (params rm))"
    by (simp add: condition_defs v_def)
  let ?P = "\<lambda>a.
     (IsAcceptable a \<longleftrightarrow>
        \<not> exceeds_position_size rm order \<and> \<not> exceeds_loss_per_trade rm order \<and>
        \<not> exceeds_daily_loss rm order \<and> \<not> exceeds_daily_volume rm order) \<and>
     (''Position size exceeds maximum allowed'' \<in> set (RiskFactors a) \<longleftrightarrow>
        exceeds_position_size rm order) \<and>
     (''Potential loss exceeds maximum allowed per trade'' \<in> set (RiskFactors a) \<longleftrightarrow>
        \<not> exceeds_position_size rm order \<and> exceeds_loss_per_trade rm order) \<and>
     (exceeds_position_size rm order \<longrightarrow>
        \<not> IsAcceptable a \<and>
        RiskLevel a =
          foldl fadd (fadd (float64_const 0 1) (float64_const 3 10)) (later_weights rm order) \<and>
        take 1 (RiskFactors a) = [''Position size exceeds maximum allowed''] \<and>
        take 1 (Recommendations a) =
          [''Reduce position size below '' @ Sprintf_2f (MaxPositionSize (params rm))] \<and>
        ''Potential loss exceeds maximum allowed per trade'' \<notin> set (RiskFactors a)) \<and>
     (\<not> exceeds_position_size rm order \<and> exceeds_loss_per_trade rm order \<longrightarrow>
        \<not> IsAcceptable a \<and>
        RiskLevel a =
          foldl fadd (fadd (float64_const 0 1) (float64_const 25 100)) (later_weights rm order) \<and>
        take 1 (RiskFactors a) = [''Potential loss exceeds maximum allowed per trade''] \<and>
        take 1 (Recommendations a) =
          [''Reduce position size to limit potential loss below '' @
           Sprintf_2f (MaxLossPerTrade (params rm))] \<and>
        ''Position size exceeds maximum allowed'' \<notin> set (RiskFactors a)) \<and>
     (\<not> exceeds_position_size rm order \<and> \<not> exceeds_loss_per_trade rm order \<longrightarrow>
        (IsAcceptable a \<longleftrightarrow>
           \<not> exceeds_daily_loss rm order \<and> \<not> exceeds_daily_volume rm order) \<and>
        RiskLevel a = foldl fadd (float64_const 0 1) (later_weights rm order) \<and>
        ''Position size exceeds maximum allowed'' \<notin> set (RiskFactors a) \<and>
        ''Potential loss exceeds maximum allowed per trade'' \<notin> set (RiskFactors a))"
  consider (pos) "exceeds_position_size rm order"
    | (loss) "\<not> exceeds_position_size rm order" "exceeds_loss_per_trade rm order"
    | (pass) "\<not> exceeds_position_size rm order" "\<not> exceeds_loss_per_trade rm order"
    by blast
  then have "?P a"
  proof cases
    case pos
    then have "a1 = a0\<lparr>IsAcceptable := False,
             RiskLevel := fadd (RiskLevel a0) (float64_const 3 10),
             RiskFactors := RiskFactors a0 @ [''Position size exceeds maximum allowed''],
             Recommendations := Recommendations a0 @
               [''Reduce position size below '' @ Sprintf_2f (MaxPositionSize (params rm))]\<rparr>"
      unfolding a1_def c1 by (rule check_position_size_exceeds)
    with pos accept level later recs show ?thesis by (simp add: a0_def)
  next
    case loss
    then have "a1 = a0\<lparr>IsAcceptable := False,
             RiskLevel := fadd (RiskLevel a0) (float64_const 25 100),
             RiskFactors := RiskFactors a0 @
               [''Potential loss exceeds maximum allowed per trade''],
             Recommendations := Recommendations a0 @
               [''Reduce position size to limit potential loss below '' @
                Sprintf_2f (MaxLossPerTrade (params rm))]\<rparr>"
      unfolding a1_def c1 c2 by (intro check_position_size_loss) simp_all
    with loss accept level later recs show ?thesis by (simp add: a0_def)
  next
    case pass
    then have "a1 = a0"
      unfolding a1_def c1 c2 by (intro check_position_size_passes) simp_all
    with pass accept level later show ?thesis by (simp add: a0_def)
  qed
  with res show ?thesis by blast
qed

theorem CheckTradeRisk_position_or_loss_witness:
  "(exceeds_loss_per_trade (test_manager test_params) (test_order ''buy'' 20 ''limit'') \<and>
    (\<exists>a. CheckTradeRisk test_Sprintf_2f (test_manager test_params)
            (Some (test_order ''buy'' 20 ''limit'')) = Inr a \<and>
         \<not> IsAcceptable a \<and> RiskLevel a = float64_const 3 10 \<and>
         take 1 (RiskFactors a) = [''Position size exceeds maximum allowed''] \<and>
         take 1 (Recommendations a) = [''Reduce position size below 10000.00''] \<and>
         ''Potential loss exceeds maximum allowed per trade'' \<notin> set (RiskFactors a))) \<and>
   (\<exists>a. CheckTradeRisk test_Sprintf_2f (test_manager test_params)
            (Some (test_order ''buy'' 15 ''market'')) = Inr a \<and>
         \<not> IsAcceptable a \<and> RiskLevel a = float64_const 4 10 \<and>
         take 1 (RiskFactors a) = [''Position size exceeds maximum allowed''] \<and>
         ''Potential loss exceeds maximum allowed per trade'' \<notin> set (RiskFactors a)) \<and>
   (\<exists>a. CheckTradeRisk test_Sprintf_2f (test_manager loss_test_params)
            (Some (test_order ''buy'' 1 ''limit'')) = Inr a \<and>
         \<not> IsAcceptable a \<and> RiskLevel a = float64_const 25 100 \<and>
         take 1 (RiskFactors a) = [''Potential loss exceeds maximum allowed per trade''] \<and>
         ''Position size exceeds maximum allowed'' \<notin> set (RiskFactors a)) \<and>
   (\<exists>a. CheckTradeRisk test_Sprintf_2f (test_manager loss_test_params)
            (Some (test_order ''buy'' 1 ''market'')) = Inr a \<and>
         \<not> IsAcceptable a \<and> RiskLevel a = float64_const 35 100 \<and>
         take 1 (RiskFactors a) = [''Potential loss exceeds maximum allowed per trade''] \<and>
         ''Position size exceeds maximum allowed'' \<notin> set (RiskFactors a)) \<and>
   (\<exists>a. CheckTradeRisk test_Sprintf_2f (test_manager test_params)
            (Some (test_order ''buy'' 1 ''limit'')) = Inr a \<and>
         IsAcceptable a \<and> RiskLevel a = float64_const 0 1 \<and>
         ''Position size exceeds maximum allowed'' \<notin> set (RiskFactors a) \<and>
         ''Potential loss exceeds maximum allowed per trade'' \<notin> set (RiskFactors a)) \<and>
   (\<exists>a. CheckTradeRisk test_Sprintf_2f (test_manager test_params)
            (Some (test_order ''buy'' 1 ''market'')) = Inr a \<and>
         IsAcceptable a \<and> RiskLevel a = float64_const 1 10 \<and>
         ''Position size exceeds maximum allowed'' \<notin> set (RiskFactors a) \<and>
         ''Potential loss exceeds maximum allowed per trade'' \<notin> set (RiskFactors a))"
  using
    CheckTradeRisk_position_or_loss [of test_Sprintf_2f "test_manager test_params"
      "test_order ''buy'' 20 ''limit''"]
    CheckTradeRisk_position_or_loss [of test_Sprintf_2f "test_manager test_params"
      "test_order ''buy'' 15 ''market''"]
    CheckTradeRisk_position_or_loss [of test_Sprintf_2f "test_manager loss_test_params"
      "test_order ''buy'' 1 ''limit''"]
    CheckTradeRisk_position_or_loss [of test_Sprintf_2f "test_manager loss_test_params"
      "test_order ''buy'' 1 ''market''"]
    CheckTradeRisk_position_or_loss [of test_Sprintf_2f "test_manager test_params"
      "test_order ''buy'' 1 ''limit''"]
    CheckTradeRisk_position_or_loss [of test_Sprintf_2f "test_manager test_params"
      "test_order ''buy'' 1 ''market''"]
  by (auto simp: later_weights_def conditions_excessive_order conditions_large_market_order
        conditions_loss_order conditions_loss_market_order conditions_safe_order
        conditions_market_order first_weight position_and_market_weight
        loss_and_market_weight test_Sprintf_2f_def)

text \<open>
  Claim C3. \<^verbatim>\<open>CheckTradeRisk\<close> returns an assessment and no error for every order, and for
  an order that triggers none of the six checks the assessment is the default one:
  acceptable, risk level zero, no factors and no recommendations.
\<close>

theorem CheckTradeRisk_default:
  "(\<exists>a. CheckTradeRisk Sprintf_2f rm (Some order) = Inr a) \<and>
   (\<not> exceeds_position_size rm order \<and> \<not> exceeds_loss_per_trade rm order \<and>
    \<not> exceeds_daily_loss rm order \<and> \<not> is_market_order order \<and>
    \<not> exceeds_daily_volume rm order \<and> \<not> high_trade_frequency rm \<longrightarrow>
    CheckTradeRisk Sprintf_2f rm (Some order) =
      Inr \<lparr>IsAcceptable = True, RiskLevel = float64_const 0 1,
           RiskFactors = [], Recommendations = []\<rparr>)"
  by (simp add: CheckTradeRisk_def Let_def check_defs condition_defs)

theorem CheckTradeRisk_default_witness:
  "CheckTradeRisk test_Sprintf_2f (test_manager test_params)
     (Some (test_order ''buy'' 1 ''limit'')) =
   Inr \<lparr>IsAcceptable = True, RiskLevel = float64_const 0 1,
        RiskFactors = [], Recommendations = []\<rparr>"
  using CheckTradeRisk_default [of test_Sprintf_2f "test_manager test_params"
      "test_order ''buy'' 1 ''limit''"]
  by (simp add: conditions_safe_order)

text \<open>
  Claim C6. The market-order check adds 0.1 to the risk level and one factor, and leaves
  \<^verbatim>\<open>IsAcceptable\<close> as it was. A market order that
  triggers no other check is acceptable with risk level 0.1 and exactly one factor; a market
  order whose value also exceeds \<^verbatim>\<open>MaxPositionSize\<close>, and that triggers nothing else, is
  rejected with risk level 0.4 and exactly two factors.
\<close>

theorem CheckTradeRisk_market_order:
  "(is_market_order order \<longrightarrow>
      check_market_order order a =
        a\<lparr>RiskLevel := fadd (RiskLevel a) (float64_const 1 10),
          RiskFactors := RiskFactors a @ [''Market order may result in slippage''],
          Recommendations := Recommendations a @
            [''Consider using limit order for better price control'']\<rparr> \<and>
      (IsAcceptable (check_market_order order a) \<longleftrightarrow> IsAcceptable a)) \<and>
   (is_market_order order \<and> \<not> exceeds_daily_loss rm order \<and>
    \<not> exceeds_daily_volume rm order \<and> \<not> high_trade_frequency rm \<longrightarrow>
      (\<not> exceeds_position_size rm order \<and> \<not> exceeds_loss_per_trade rm order \<longrightarrow>
         CheckTradeRisk Sprintf_2f rm (Some order) =
           Inr \<lparr>IsAcceptable = True, RiskLevel = float64_const 1 10,
                RiskFactors = [''Market order may result in slippage''],
                Recommendations = [''Consider using limit order for better price control'']\<rparr>) \<and>
      (exceeds_position_size rm order \<longrightarrow>
         CheckTradeRisk Sprintf_2f rm (Some order) =
           Inr \<lparr>IsAcceptable = False, RiskLevel = float64_const 4 10,
                RiskFactors = [''Position size exceeds maximum allowed'',
                               ''Market order may result in slippage''],
                Recommendations =
                  [''Reduce position size below '' @ Sprintf_2f (MaxPositionSize (params rm)),
                   ''Consider using limit order for better price control'']\<rparr>))"
  by (simp add: CheckTradeRisk_def Let_def check_defs condition_defs first_weight
        position_and_market_weight)

theorem CheckTradeRisk_market_order_witness:
  "CheckTradeRisk test_Sprintf_2f (test_manager test_params)
     (Some (test_order ''buy'' 1 ''market'')) =
     Inr \<lparr>IsAcceptable = True, RiskLevel = float64_const 1 10,
          RiskFactors = [''Market order may result in slippage''],
          Recommendations = [''Consider using limit order for better price control'']\<rparr> \<and>
   CheckTradeRisk test_Sprintf_2f (test_manager test_params)
     (Some (test_order ''buy'' 15 ''market'')) =
     Inr \<lparr>IsAcceptable = False, RiskLevel = float64_const 4 10,
          RiskFactors = [''Position size exceeds maximum allowed'',
                         ''Market order may result in slippage''],
          Recommendations =
            [''Reduce position size below 10000.00'',
             ''Consider using limit order for better price control'']\<rparr>"
  using
    CheckTradeRisk_market_order [of "test_order ''buy'' 1 ''market''" default_assessment
      "test_manager test_params" test_Sprintf_2f]
    CheckTradeRisk_market_order [of "test_order ''buy'' 15 ''market''" default_assessment
      "test_manager test_params" test_Sprintf_2f]
  by (simp add: conditions_market_order conditions_large_market_order test_Sprintf_2f_def)


lemma check_position_size_lengths:
  "length (RiskFactors (check_position_size F p order v a)) =
     length (RiskFactors a) +
     of_bool (fgt v (MaxPositionSize p) \<or>
              Side order = ''buy'' \<and> fgt (fmul v (float64_const 1 10)) (MaxLossPerTrade p))"
  "length (Recommendations (check_position_size F p order v a)) =
     length (Recommendations a) +
     of_bool (fgt v (MaxPositionSize p) \<or>
              Side order = ''buy'' \<and> fgt (fmul v (float64_const 1 10)) (MaxLossPerTrade p))"
  by (simp_all add: check_position_size_def Let_def)

lemma check_daily_loss_lengths:
  "length (RiskFactors (check_daily_loss rm p v a)) =
     length (RiskFactors a) +
     of_bool (fgt (fadd (totalLoss (dailyStats rm)) (fmul v (float64_const 1 10)))
                  (MaxDailyLoss p))"
  "length (Recommendations (check_daily_loss rm p v a)) =
     length (Recommendations a) +
     of_bool (fgt (fadd (totalLoss (dailyStats rm)) (fmul v (float64_const 1 10)))
                  (MaxDailyLoss p))"
  by (simp_all add: check_daily_loss_def)

lemma check_market_order_lengths:
  "length (RiskFactors (check_market_order order a)) =
     length (RiskFactors a) + of_bool (OrderType order = ''market'')"
  "length (Recommendations (check_market_order order a)) =
     length (Recommendations a) + of_bool (OrderType order = ''market'')"
  by (simp_all add: check_market_order_def)

lemma check_trading_volume_lengths:
  "length (RiskFactors (check_trading_volume rm p v a)) =
     length (RiskFactors a) +
     of_bool (fgt (fadd (tradingVolume (dailyStats rm)) v)
                  (fmul (MaxPositionSize p) (float64_const 5 1)))"
  "length (Recommendations (check_trading_volume rm p v a)) =
     length (Recommendations a) +
     of_bool (fgt (fadd (tradingVolume (dailyStats rm)) v)
                  (fmul (MaxPositionSize p) (float64_const 5 1)))"
  by (simp_all add: check_trading_volume_def)

lemma check_trade_frequency_lengths:
  "length (RiskFactors (check_trade_frequency rm a)) =
     length (RiskFactors a) + of_bool (100 < tradeCount (dailyStats rm))"
  "length (Recommendations (check_trade_frequency rm a)) =
     length (Recommendations a) + of_bool (100 < tradeCount (dailyStats rm))"
  by (simp_all add: check_trade_frequency_def)

lemmas check_lengths =
  check_position_size_lengths check_daily_loss_lengths check_market_order_lengths
  check_trading_volume_lengths check_trade_frequency_lengths

text \<open>
  Claim C10. Every assessment that \<^verbatim>\<open>CheckTradeRisk\<close> returns has as many recommendations
  as risk factors, and that number is the number of checks that fired.
\<close>

theorem CheckTradeRisk_equal_lengths:
  "\<exists>a. CheckTradeRisk Sprintf_2f rm (Some order) = Inr a \<and>
       length (RiskFactors a) = length (Recommendations a) \<and>
       length (RiskFactors a) = fired_checks rm order"
  unfolding CheckTradeRisk_def Let_def fired_checks_def condition_defs
  by (simp add: check_lengths)

theorem CheckTradeRisk_equal_lengths_witness:
  "\<exists>a. CheckTradeRisk test_Sprintf_2f (test_manager test_params)
          (Some (test_order ''buy'' 15 ''market'')) = Inr a \<and>
       length (RiskFactors a) = 2 \<and> length (Recommendations a) = 2"
  using CheckTradeRisk_equal_lengths [of test_Sprintf_2f "test_manager test_params"
      "test_order ''buy'' 15 ''market''"]
  by (auto simp: fired_checks_def conditions_large_market_order)


lemma float64_const_zero: "float64_const 0 1 = Finite False 0 (- 1074)"
  by (simp add: float64_eval)

lemma at_most_zero_Finite: "at_most_zero (Finite s m e) \<longleftrightarrow> s \<or> m = 0"
proof -
  have pos: "(0::real) < 2 powi e" by simp
  have "real_of_int (signed s m) * 2 powi e \<le> 0 * 2 powi e \<longleftrightarrow> real_of_int (signed s m) \<le> 0"
    using pos by (rule mult_le_cancel_right_pos)
  then have "float64_value (Finite s m e) \<le> 0 \<longleftrightarrow> signed s m \<le> 0"
    by (simp add: float64_value_def)
  then show ?thesis
    by (simp add: at_most_zero_def signed_def)
qed

lemma strictly_positive_Finite: "strictly_positive (Finite s m e) \<longleftrightarrow> \<not> s \<and> 0 < m"
proof -
  have pos: "(0::real) < 2 powi e" by simp
  have "0 * 2 powi e < real_of_int (signed s m) * 2 powi e \<longleftrightarrow> 0 < real_of_int (signed s m)"
    using pos by (rule mult_less_cancel_right_pos)
  then have "0 < float64_value (Finite s m e) \<longleftrightarrow> 0 < signed s m"
    by (simp add: float64_value_def)
  then show ?thesis
    by (simp add: strictly_positive_def signed_def)
qed

lemma fle_zero: "fle x (float64_const 0 1) \<longleftrightarrow> at_most_zero x"
proof (cases x)
  case (Finite s m e)
  have "fle (Finite s m e) (Finite False 0 (- 1074)) \<longleftrightarrow> float64_value (Finite s m e) \<le> 0"
    unfolding fle_Finite_value by (simp add: float64_value_def signed_def)
  with Finite show ?thesis
    by (simp add: float64_const_zero at_most_zero_def)
qed (simp_all add: float64_const_zero at_most_zero_def)

lemma positive_not_at_most_zero: "strictly_positive x \<Longrightarrow> \<not> at_most_zero x"
  by (cases x) (auto simp: strictly_positive_def at_most_zero_def)

text \<open>
  Claim C2. \<^verbatim>\<open>SetRiskParameters\<close> returns the invalid-parameter error whenever one of the
  five fields is at most zero, and then leaves the manager, with its active parameters, as
  it was; it succeeds and replaces the whole parameter set whenever all five fields are
  strictly positive.
\<close>

theorem SetRiskParameters_validation:
  "(at_most_zero (MaxPositionSize p) \<or> at_most_zero (MaxLossPerTrade p) \<or>
    at_most_zero (MaxDailyLoss p) \<or> at_most_zero (MaxLeverage p) \<or>
    at_most_zero (MinLiquidity p) \<longrightarrow>
      SetRiskParameters rm (Some p) = (Some InvalidParameter, rm)) \<and>
   (strictly_positive (MaxPositionSize p) \<and> strictly_positive (MaxLossPerTrade p) \<and>
    strictly_positive (MaxDailyLoss p) \<and> strictly_positive (MaxLeverage p) \<and>
    strictly_positive (MinLiquidity p) \<longrightarrow>
      SetRiskParameters rm (Some p) = (None, rm\<lparr>params := p\<rparr>))"
  by (auto simp: SetRiskParameters_def fle_zero InvalidParameter_def
        dest: positive_not_at_most_zero)

theorem SetRiskParameters_validation_witness:
  "SetRiskParameters (test_manager test_params)
     (Some (test_params\<lparr>MaxPositionSize := float64_const (- 1000) 1\<rparr>)) =
     (Some InvalidParameter, test_manager test_params) \<and>
   SetRiskParameters (test_manager test_params) (Some zero_params) =
     (Some InvalidParameter, test_manager test_params) \<and>
   SetRiskParameters (test_manager zero_params) (Some test_params) =
     (None, test_manager test_params)"
  using
    SetRiskParameters_validation [of "test_params\<lparr>MaxPositionSize := float64_const (- 1000) 1\<rparr>"
      "test_manager test_params"]
    SetRiskParameters_validation [of zero_params "test_manager test_params"]
    SetRiskParameters_validation [of test_params "test_manager zero_params"]
  by (simp add: test_params_def zero_params_def float64_eval at_most_zero_Finite
        strictly_positive_Finite test_manager_def NewBasicRiskManager_def)

lemma flt_Infinity_const: "flt (Infinity s) (float64_const (- 10000) 1) \<longleftrightarrow> s"
  "flt (Infinity s) (float64_const (- 5000) 1) \<longleftrightarrow> s"
  by (simp_all add: float64_eval)

lemma float64_value_thresholds:
  "float64_const (- 10000) 1 = Finite True 5497558138880000 (- 39)"
  "float64_const (- 5000) 1 = Finite True 5497558138880000 (- 40)"
  "float64_value (Finite True 5497558138880000 (- 39)) = - 10000"
  "float64_value (Finite True 5497558138880000 (- 40)) = - 5000"
  by (simp_all add: float64_eval float64_value_def power_int_minus)

lemma severity_test_values:
  "getSeverityLevel (float64_const (- 15000) 1) = ''HIGH''"
  "getSeverityLevel (float64_const (- 7500) 1) = ''MEDIUM''"
  "getSeverityLevel (float64_const (- 1000) 1) = ''LOW''"
  "getSeverityLevel (float64_const (- 10000) 1) = ''MEDIUM''"
  "getSeverityLevel (float64_const (- 5000) 1) = ''LOW''"
  by (simp_all add: getSeverityLevel_def float64_eval)

text \<open>
  Claim C7. \<^verbatim>\<open>getSeverityLevel\<close> returns HIGH exactly for the values strictly below
  -10000, MEDIUM exactly for those from -10000 up to but excluding -5000, and LOW for every
  other value (which includes NaN); so -15000 is HIGH, -7500 MEDIUM, -1000 LOW, and the
  boundaries -10000 and -5000 are MEDIUM and LOW.
\<close>

theorem getSeverityLevel_thresholds:
  "getSeverityLevel pnl =
     (case pnl of
        Finite s m e \<Rightarrow>
          if float64_value pnl < - 10000 then ''HIGH''
          else if float64_value pnl < - 5000 then ''MEDIUM''
          else ''LOW''
      | Infinity s \<Rightarrow> if s then ''HIGH'' else ''LOW''
      | NaN \<Rightarrow> ''LOW'') \<and>
   getSeverityLevel (float64_const (- 15000) 1) = ''HIGH'' \<and>
   getSeverityLevel (float64_const (- 7500) 1) = ''MEDIUM'' \<and>
   getSeverityLevel (float64_const (- 1000) 1) = ''LOW'' \<and>
   getSeverityLevel (float64_const (- 10000) 1) = ''MEDIUM'' \<and>
   getSeverityLevel (float64_const (- 5000) 1) = ''LOW''"
proof -
  have "getSeverityLevel pnl =
     (case pnl of
        Finite s m e \<Rightarrow>
          if float64_value pnl < - 10000 then ''HIGH''
          else if float64_value pnl < - 5000 then ''MEDIUM''
          else ''LOW''
      | Infinity s \<Rightarrow> if s then ''HIGH'' else ''LOW''
      | NaN \<Rightarrow> ''LOW'')"
  proof (cases pnl)
    case (Finite s m e)
    have "flt (Finite s m e) (float64_const (- 10000) 1) \<longleftrightarrow>
            float64_value (Finite s m e) < - 10000"
      unfolding float64_value_thresholds(1) flt_Finite_value float64_value_thresholds(3) ..
    moreover have "flt (Finite s m e) (float64_const (- 5000) 1) \<longleftrightarrow>
            float64_value (Finite s m e) < - 5000"
      unfolding float64_value_thresholds(2) flt_Finite_value float64_value_thresholds(4) ..
    ultimately show ?thesis
      using Finite by (simp add: getSeverityLevel_def)
  next
    case (Infinity s)
    then show ?thesis by (simp add: getSeverityLevel_def flt_Infinity_const)
  next
    case NaN
    then show ?thesis by (simp add: getSeverityLevel_def)
  qed
  then show ?thesis
    by (simp only: severity_test_values simp_thms)
qed

end
